theory Spec2Isabelle
  imports Main "HOL-Library.Code_Target_Nat"
begin

section \<open>Memory model\<close>

text \<open>
  The container of \<^verbatim>\<open>vector.h\<close> separates raw storage from object lifetime, so the
  model keeps both apart as well. A block of raw storage is a list of slots. A slot is
  either uninitialised storage, a live object with a value, or a live object that has been
  moved from (its value is unspecified, but it still has to be destroyed).

  The free store is a list of cells indexed by block address. A cell that holds no block
  has been released (or was never handed out). \<^verbatim>\<open>operator new\<close> appends a new cell when
  it serves a request, so a fresh block never aliases an older one.

  \<^verbatim>\<open>size_t\<close> has 64 bits. Counts of elements are natural numbers. The number of bytes that
  \<^verbatim>\<open>RawMemory::Allocate\<close> asks for is the product \<^verbatim>\<open>n * sizeof(T)\<close> in \<^verbatim>\<open>size_t\<close>, where \<^verbatim>\<open>n\<close>
  can come straight from the caller (\<^verbatim>\<open>Reserve\<close>, \<^verbatim>\<open>Resize\<close>, the sized constructor): that
  product is taken modulo \<open>2 ^ 64\<close>, and the block that comes back has room for as many
  objects as the bytes asked for can hold, which is fewer than \<^verbatim>\<open>n\<close> after a wrap-around.
  The doubling \<^verbatim>\<open>size_ * 2\<close> of a growing append stays a natural number: it cannot wrap
  around unless the product with \<^verbatim>\<open>sizeof(T)\<close> does. Where a difference of sizes or
  positions would wrap around, this is written out as undefined behaviour.
\<close>

datatype 'a slot = Uninit | Live 'a | Moved

type_synonym 'a block = "'a slot list"

type_synonym 'a heap = "'a block option list"

text \<open>A \<^verbatim>\<open>T*\<close>: the null pointer, or a block address with a signed slot offset.\<close>

datatype ptr = Null | Ptr nat int

text \<open>
  What a call can do: return normally, leave by an exception of the element type (with the
  state that the unwinding has left behind), or run into undefined behaviour (an access
  outside a block, to storage that holds no object, a failed \<^verbatim>\<open>assert\<close>, a double free).
\<close>

datatype ('r, 's) outcome = Done 'r | Thrown 's | Undefined

definition block_at :: "'a heap \<Rightarrow> nat \<Rightarrow> 'a block option" where
  "block_at h a = (if a < length h then h ! a else None)"

fun slot_at :: "'a heap \<Rightarrow> ptr \<Rightarrow> 'a slot option" where
  "slot_at h Null = None"
| "slot_at h (Ptr a i) =
     (case block_at h a of
        None \<Rightarrow> None
      | Some b \<Rightarrow> if 0 \<le> i \<and> nat i < length b then Some (b ! nat i) else None)"

fun put_slot :: "ptr \<Rightarrow> 'a slot \<Rightarrow> 'a heap \<Rightarrow> 'a heap" where
  "put_slot Null x h = h"
| "put_slot (Ptr a i) x h =
     (case block_at h a of
        None \<Rightarrow> h
      | Some b \<Rightarrow> h[a := Some (b[nat i := x])])"

text \<open>Pointer arithmetic. Leaving the block is caught when the pointer is used.\<close>

fun ptr_add :: "ptr \<Rightarrow> int \<Rightarrow> ptr" where
  "ptr_add Null k = Null"
| "ptr_add (Ptr a i) k = Ptr a (i + k)"

text \<open>\<^verbatim>\<open>last - first\<close>, defined for two pointers into the same block (or two null pointers).\<close>

fun ptr_diff :: "ptr \<Rightarrow> ptr \<Rightarrow> int option" where
  "ptr_diff Null Null = Some 0"
| "ptr_diff (Ptr a i) (Ptr b j) = (if a = b then Some (i - j) else None)"
| "ptr_diff Null (Ptr b j) = None"
| "ptr_diff (Ptr a i) Null = None"

definition SIZE_MAX :: nat where
  "SIZE_MAX = 2 ^ 64 - 1"

text \<open>\<^verbatim>\<open>operator delete(buf)\<close>; \<^verbatim>\<open>None\<close> when the release is undefined.\<close>

definition operator_delete :: "ptr \<Rightarrow> 'a heap \<Rightarrow> 'a heap option" where
  "operator_delete buf h =
     (case buf of
        Null \<Rightarrow> Some h
      | Ptr a i \<Rightarrow> if i = 0 \<and> block_at h a \<noteq> None then Some (h[a := None]) else None)"

section \<open>The element type\<close>

text \<open>
  What the container asks of \<^verbatim>\<open>T\<close>: the two compile-time traits that select between moving
  and copying during relocation, which values make a copy (construction or assignment)
  throw, which values make a move throw, the value of \<^verbatim>\<open>T()\<close> (none when it throws), and
  \<^verbatim>\<open>sizeof(T)\<close>. A copy that does not throw yields an equal value.

  The last field belongs to the run rather than to \<^verbatim>\<open>T\<close>; it is kept here because every
  allocation of the container is made for objects of \<^verbatim>\<open>T\<close>. It is the largest number of
  bytes that \<^verbatim>\<open>operator new\<close> hands out in one piece: a larger request throws
  \<^verbatim>\<open>std::bad_alloc\<close>.
\<close>

record 'a T_traits =
  is_nothrow_move_constructible :: bool
  is_copy_constructible :: bool
  copy_throws :: "'a \<Rightarrow> bool"
  move_throws :: "'a \<Rightarrow> bool"
  value_init :: "'a option"
  sizeof_T :: nat
  max_request :: nat

text \<open>
  \<^verbatim>\<open>operator new(bytes)\<close>, called for storage that will hold objects of \<^verbatim>\<open>T\<close>: \<^verbatim>\<open>None\<close> when it
  throws \<^verbatim>\<open>std::bad_alloc\<close>, otherwise the address of a fresh block of \<^verbatim>\<open>bytes\<close> bytes, which
  has room for \<^verbatim>\<open>bytes / sizeof(T)\<close> objects. A request of zero bytes is served with a block
  that has no room at all.
\<close>

definition operator_new :: "'a T_traits \<Rightarrow> nat \<Rightarrow> 'a heap \<Rightarrow> (ptr \<times> 'a heap) option" where
  "operator_new T bytes h =
     (if max_request T < bytes then None
      else Some (Ptr (length h) 0, h @ [Some (replicate (bytes div sizeof_T T) Uninit)]))"

fun throws_on :: "('a \<Rightarrow> bool) \<Rightarrow> 'a slot \<Rightarrow> bool" where
  "throws_on f (Live x) = f x"
| "throws_on f Moved = False"
| "throws_on f Uninit = False"

text \<open>The object (live or moved-from) that a pointer designates, if any.\<close>

definition object_at :: "'a heap \<Rightarrow> ptr \<Rightarrow> 'a slot option" where
  "object_at h p =
     (case slot_at h p of
        None \<Rightarrow> None
      | Some Uninit \<Rightarrow> None
      | Some (Live x) \<Rightarrow> Some (Live x)
      | Some Moved \<Rightarrow> Some Moved)"

text \<open>
  \<^verbatim>\<open>new (p) T(args...)\<close>: the argument is the value the constructor call produces, or
  \<^verbatim>\<open>None\<close> when the constructor throws. Placement new does not look at what the storage
  held before.
\<close>

definition construct_at :: "ptr \<Rightarrow> 'a option \<Rightarrow> 'a heap \<Rightarrow> ('a heap, 'a heap) outcome" where
  "construct_at p args h =
     (case slot_at h p of
        None \<Rightarrow> Undefined
      | Some old \<Rightarrow>
          (case args of
             None \<Rightarrow> Thrown h
           | Some x \<Rightarrow> Done (put_slot p (Live x) h)))"

text \<open>\<^verbatim>\<open>new (dst) T(*src)\<close> and \<^verbatim>\<open>new (dst) T(std::move(*src))\<close>.\<close>

definition copy_construct ::
  "'a T_traits \<Rightarrow> ptr \<Rightarrow> ptr \<Rightarrow> 'a heap \<Rightarrow> ('a heap, 'a heap) outcome" where
  "copy_construct T src dst h =
     (case object_at h src of
        None \<Rightarrow> Undefined
      | Some obj \<Rightarrow>
          (case slot_at h dst of
             None \<Rightarrow> Undefined
           | Some old \<Rightarrow>
               if throws_on (copy_throws T) obj then Thrown h
               else Done (put_slot dst obj h)))"

definition move_construct ::
  "'a T_traits \<Rightarrow> ptr \<Rightarrow> ptr \<Rightarrow> 'a heap \<Rightarrow> ('a heap, 'a heap) outcome" where
  "move_construct T src dst h =
     (case object_at h src of
        None \<Rightarrow> Undefined
      | Some obj \<Rightarrow>
          (case slot_at h dst of
             None \<Rightarrow> Undefined
           | Some old \<Rightarrow>
               if throws_on (move_throws T) obj then Thrown h
               else Done (put_slot src Moved (put_slot dst obj h))))"

text \<open>\<^verbatim>\<open>*dst = *src\<close> and \<^verbatim>\<open>*dst = std::move(*src)\<close>: both sides must be objects.\<close>

definition copy_assign ::
  "'a T_traits \<Rightarrow> ptr \<Rightarrow> ptr \<Rightarrow> 'a heap \<Rightarrow> ('a heap, 'a heap) outcome" where
  "copy_assign T src dst h =
     (case object_at h src of
        None \<Rightarrow> Undefined
      | Some obj \<Rightarrow>
          (case object_at h dst of
             None \<Rightarrow> Undefined
           | Some old \<Rightarrow>
               if throws_on (copy_throws T) obj then Thrown h
               else Done (put_slot dst obj h)))"

definition move_assign ::
  "'a T_traits \<Rightarrow> ptr \<Rightarrow> ptr \<Rightarrow> 'a heap \<Rightarrow> ('a heap, 'a heap) outcome" where
  "move_assign T src dst h =
     (case object_at h src of
        None \<Rightarrow> Undefined
      | Some obj \<Rightarrow>
          (case object_at h dst of
             None \<Rightarrow> Undefined
           | Some old \<Rightarrow>
               if throws_on (move_throws T) obj then Thrown h
               else Done (put_slot src Moved (put_slot dst obj h))))"

text \<open>\<^verbatim>\<open>*dst = std::move(x)\<close> for a local object \<^verbatim>\<open>x\<close> that lives outside the free store.\<close>

definition move_assign_local ::
  "'a T_traits \<Rightarrow> 'a \<Rightarrow> ptr \<Rightarrow> 'a heap \<Rightarrow> ('a heap, 'a heap) outcome" where
  "move_assign_local T x dst h =
     (case object_at h dst of
        None \<Rightarrow> Undefined
      | Some old \<Rightarrow>
          if move_throws T x then Thrown h
          else Done (put_slot dst (Live x) h))"

definition destroy_at :: "ptr \<Rightarrow> 'a heap \<Rightarrow> ('a heap, 'a heap) outcome" where
  "destroy_at p h =
     (case object_at h p of
        None \<Rightarrow> Undefined
      | Some obj \<Rightarrow> Done (put_slot p Uninit h))"

section \<open>The algorithms of the standard library that the container calls\<close>

text \<open>
  Each algorithm is the loop the standard describes, as a recursion on the number of
  elements left. The \<^verbatim>\<open>uninitialized_*\<close> algorithms destroy what they have constructed
  when an element throws, and pass the exception on.
\<close>

fun destroy_n :: "ptr \<Rightarrow> nat \<Rightarrow> 'a heap \<Rightarrow> ('a heap, 'a heap) outcome" where
  "destroy_n first 0 h = Done h"
| "destroy_n first (Suc n) h =
     (case destroy_at first h of
        Done h1 \<Rightarrow> destroy_n (ptr_add first 1) n h1
      | Thrown h1 \<Rightarrow> Thrown h1
      | Undefined \<Rightarrow> Undefined)"

fun uninitialized_value_construct_n ::
  "'a T_traits \<Rightarrow> ptr \<Rightarrow> nat \<Rightarrow> 'a heap \<Rightarrow> ('a heap, 'a heap) outcome" where
  "uninitialized_value_construct_n T first 0 h = Done h"
| "uninitialized_value_construct_n T first (Suc n) h =
     (case construct_at first (value_init T) h of
        Undefined \<Rightarrow> Undefined
      | Thrown h1 \<Rightarrow> Thrown h1
      | Done h1 \<Rightarrow>
          (case uninitialized_value_construct_n T (ptr_add first 1) n h1 of
             Undefined \<Rightarrow> Undefined
           | Thrown h2 \<Rightarrow>
               (case destroy_at first h2 of
                  Done h3 \<Rightarrow> Thrown h3
                | Thrown h3 \<Rightarrow> Undefined
                | Undefined \<Rightarrow> Undefined)
           | Done h2 \<Rightarrow> Done h2))"

fun uninitialized_copy_n ::
  "'a T_traits \<Rightarrow> ptr \<Rightarrow> nat \<Rightarrow> ptr \<Rightarrow> 'a heap \<Rightarrow> ('a heap, 'a heap) outcome" where
  "uninitialized_copy_n T first 0 result h = Done h"
| "uninitialized_copy_n T first (Suc n) result h =
     (case copy_construct T first result h of
        Undefined \<Rightarrow> Undefined
      | Thrown h1 \<Rightarrow> Thrown h1
      | Done h1 \<Rightarrow>
          (case uninitialized_copy_n T (ptr_add first 1) n (ptr_add result 1) h1 of
             Undefined \<Rightarrow> Undefined
           | Thrown h2 \<Rightarrow>
               (case destroy_at result h2 of
                  Done h3 \<Rightarrow> Thrown h3
                | Thrown h3 \<Rightarrow> Undefined
                | Undefined \<Rightarrow> Undefined)
           | Done h2 \<Rightarrow> Done h2))"

fun uninitialized_move_n ::
  "'a T_traits \<Rightarrow> ptr \<Rightarrow> nat \<Rightarrow> ptr \<Rightarrow> 'a heap \<Rightarrow> ('a heap, 'a heap) outcome" where
  "uninitialized_move_n T first 0 result h = Done h"
| "uninitialized_move_n T first (Suc n) result h =
     (case move_construct T first result h of
        Undefined \<Rightarrow> Undefined
      | Thrown h1 \<Rightarrow> Thrown h1
      | Done h1 \<Rightarrow>
          (case uninitialized_move_n T (ptr_add first 1) n (ptr_add result 1) h1 of
             Undefined \<Rightarrow> Undefined
           | Thrown h2 \<Rightarrow>
               (case destroy_at result h2 of
                  Done h3 \<Rightarrow> Thrown h3
                | Thrown h3 \<Rightarrow> Undefined
                | Undefined \<Rightarrow> Undefined)
           | Done h2 \<Rightarrow> Done h2))"

text \<open>
  \<^verbatim>\<open>std::move(first, last, d_first)\<close> and \<^verbatim>\<open>std::move_backward(first, last, d_last)\<close>:
  \<^verbatim>\<open>[first, last)\<close> has to be a range, that is, both ends lie in one block, in this order.
\<close>

fun move_n :: "'a T_traits \<Rightarrow> ptr \<Rightarrow> nat \<Rightarrow> ptr \<Rightarrow> 'a heap \<Rightarrow> ('a heap, 'a heap) outcome" where
  "move_n T first 0 d_first h = Done h"
| "move_n T first (Suc n) d_first h =
     (case move_assign T first d_first h of
        Done h1 \<Rightarrow> move_n T (ptr_add first 1) n (ptr_add d_first 1) h1
      | Thrown h1 \<Rightarrow> Thrown h1
      | Undefined \<Rightarrow> Undefined)"

definition std_move ::
  "'a T_traits \<Rightarrow> ptr \<Rightarrow> ptr \<Rightarrow> ptr \<Rightarrow> 'a heap \<Rightarrow> ('a heap, 'a heap) outcome" where
  "std_move T first last_it d_first h =
     (case ptr_diff last_it first of
        None \<Rightarrow> Undefined
      | Some k \<Rightarrow> if k < 0 then Undefined else move_n T first (nat k) d_first h)"

fun move_backward_n ::
  "'a T_traits \<Rightarrow> ptr \<Rightarrow> nat \<Rightarrow> ptr \<Rightarrow> 'a heap \<Rightarrow> ('a heap, 'a heap) outcome" where
  "move_backward_n T last_it 0 d_last h = Done h"
| "move_backward_n T last_it (Suc n) d_last h =
     (case move_assign T (ptr_add last_it (- 1)) (ptr_add d_last (- 1)) h of
        Done h1 \<Rightarrow> move_backward_n T (ptr_add last_it (- 1)) n (ptr_add d_last (- 1)) h1
      | Thrown h1 \<Rightarrow> Thrown h1
      | Undefined \<Rightarrow> Undefined)"

definition move_backward ::
  "'a T_traits \<Rightarrow> ptr \<Rightarrow> ptr \<Rightarrow> ptr \<Rightarrow> 'a heap \<Rightarrow> ('a heap, 'a heap) outcome" where
  "move_backward T first last_it d_last h =
     (case ptr_diff last_it first of
        None \<Rightarrow> Undefined
      | Some k \<Rightarrow> if k < 0 then Undefined else move_backward_n T last_it (nat k) d_last h)"

section \<open>RawMemory\<close>

record RawMemory =
  buffer' :: ptr
  capacity' :: nat

text \<open>
  \<^verbatim>\<open>Allocate(n)\<close> is \<^verbatim>\<open>n != 0 ? operator new(n * sizeof(T)) : nullptr\<close>, with the product in
  \<^verbatim>\<open>size_t\<close>; \<^verbatim>\<open>None\<close> when \<^verbatim>\<open>operator new\<close> throws.
\<close>

definition Allocate :: "'a T_traits \<Rightarrow> nat \<Rightarrow> 'a heap \<Rightarrow> (ptr \<times> 'a heap) option" where
  "Allocate T n h =
     (if n \<noteq> 0 then operator_new T ((n * sizeof_T T) mod (SIZE_MAX + 1)) h
      else Some (Null, h))"

definition Deallocate :: "ptr \<Rightarrow> 'a heap \<Rightarrow> 'a heap option" where
  "Deallocate buf h = operator_delete buf h"

text \<open>
  \<^verbatim>\<open>RawMemory() = default\<close> and \<^verbatim>\<open>RawMemory(size_t capacity)\<close>. The latter records the
  capacity it was asked for, whatever the size of the block; \<^verbatim>\<open>None\<close> when \<^verbatim>\<open>Allocate\<close> throws.
\<close>

definition RawMemory_default :: RawMemory where
  "RawMemory_default = \<lparr>buffer' = Null, capacity' = 0\<rparr>"

definition RawMemory_ctor :: "'a T_traits \<Rightarrow> nat \<Rightarrow> 'a heap \<Rightarrow> (RawMemory \<times> 'a heap) option" where
  "RawMemory_ctor T capacity h =
     (case Allocate T capacity h of
        None \<Rightarrow> None
      | Some (buf, h1) \<Rightarrow> Some (\<lparr>buffer' = buf, capacity' = capacity\<rparr>, h1))"

text \<open>
  \<^verbatim>\<open>RawMemory(RawMemory&& other)\<close>: the new object and \<^verbatim>\<open>other\<close> afterwards.
  \<^verbatim>\<open>std::move\<close> of a pointer or of a \<^verbatim>\<open>size_t\<close> is a cast; the assignment copies the value.
\<close>

definition RawMemory_move_ctor :: "RawMemory \<Rightarrow> RawMemory \<times> RawMemory" where
  "RawMemory_move_ctor other =
     (\<lparr>buffer' = buffer' other, capacity' = capacity' other\<rparr>, other)"

text \<open>\<^verbatim>\<open>~RawMemory()\<close>; \<^verbatim>\<open>None\<close> when the release is undefined.\<close>

definition RawMemory_dtor :: "RawMemory \<Rightarrow> 'a heap \<Rightarrow> 'a heap option" where
  "RawMemory_dtor m h = Deallocate (buffer' m) h"

text \<open>\<^verbatim>\<open>operator+\<close> and \<^verbatim>\<open>operator[]\<close> (as the address of the slot); \<^verbatim>\<open>None\<close> when the \<^verbatim>\<open>assert\<close> fails.\<close>

definition RawMemory_plus :: "RawMemory \<Rightarrow> nat \<Rightarrow> ptr option" where
  "RawMemory_plus m offset =
     (if offset \<le> capacity' m then Some (ptr_add (buffer' m) (int offset)) else None)"

definition RawMemory_index :: "RawMemory \<Rightarrow> nat \<Rightarrow> ptr option" where
  "RawMemory_index m index =
     (if index < capacity' m then Some (ptr_add (buffer' m) (int index)) else None)"

text \<open>\<^verbatim>\<open>operator=(RawMemory&& rhs)\<close>: the target and \<^verbatim>\<open>rhs\<close> afterwards.\<close>

definition RawMemory_move_assign :: "RawMemory \<Rightarrow> RawMemory \<Rightarrow> RawMemory \<times> RawMemory" where
  "RawMemory_move_assign this rhs =
     (this\<lparr>buffer' := buffer' rhs, capacity' := capacity' rhs\<rparr>, rhs)"

definition RawMemory_Swap :: "RawMemory \<Rightarrow> RawMemory \<Rightarrow> RawMemory \<times> RawMemory" where
  "RawMemory_Swap this other =
     (this\<lparr>buffer' := buffer' other, capacity' := capacity' other\<rparr>,
      other\<lparr>buffer' := buffer' this, capacity' := capacity' this\<rparr>)"

definition GetAddress :: "RawMemory \<Rightarrow> ptr" where
  "GetAddress m = buffer' m"

definition RawMemory_Capacity :: "RawMemory \<Rightarrow> nat" where
  "RawMemory_Capacity m = capacity' m"

section \<open>Vector\<close>

record Vector =
  data' :: RawMemory
  size' :: nat

text \<open>\<^verbatim>\<open>Vector() = default\<close>.\<close>

definition Vector_default :: Vector where
  "Vector_default = \<lparr>data' = RawMemory_default, size' = 0\<rparr>"

definition Size :: "Vector \<Rightarrow> nat" where
  "Size v = size' v"

definition Capacity :: "Vector \<Rightarrow> nat" where
  "Capacity v = RawMemory_Capacity (data' v)"

text \<open>\<^verbatim>\<open>begin()\<close> and \<^verbatim>\<open>end()\<close>; the latter goes through \<^verbatim>\<open>RawMemory::operator+\<close>.\<close>

definition Vector_begin :: "Vector \<Rightarrow> ptr" where
  "Vector_begin v = GetAddress (data' v)"

definition Vector_end :: "Vector \<Rightarrow> ptr option" where
  "Vector_end v = RawMemory_plus (data' v) (size' v)"

text \<open>\<^verbatim>\<open>operator[]\<close>, as the address of the element.\<close>

definition Vector_index :: "Vector \<Rightarrow> nat \<Rightarrow> ptr option" where
  "Vector_index v index =
     (if index < size' v then Some (ptr_add (GetAddress (data' v)) (int index)) else None)"

text \<open>
  The constructors. When the allocation throws, nothing has been built. When the body of a
  constructor throws, the members that were already built are destroyed, so the block of
  \<^verbatim>\<open>data_\<close> is released.
\<close>

definition Vector_sized_ctor ::
  "'a T_traits \<Rightarrow> nat \<Rightarrow> 'a heap \<Rightarrow> (Vector \<times> 'a heap, 'a heap) outcome" where
  "Vector_sized_ctor T n h =
     (case RawMemory_ctor T n h of
        None \<Rightarrow> Thrown h
      | Some (d, h1) \<Rightarrow>
          (case uninitialized_value_construct_n T (GetAddress d) n h1 of
             Undefined \<Rightarrow> Undefined
           | Thrown h2 \<Rightarrow>
               (case RawMemory_dtor d h2 of None \<Rightarrow> Undefined | Some h3 \<Rightarrow> Thrown h3)
           | Done h2 \<Rightarrow> Done (\<lparr>data' = d, size' = n\<rparr>, h2)))"

definition Vector_copy_ctor ::
  "'a T_traits \<Rightarrow> Vector \<Rightarrow> 'a heap \<Rightarrow> (Vector \<times> 'a heap, 'a heap) outcome" where
  "Vector_copy_ctor T other h =
     (case RawMemory_ctor T (size' other) h of
        None \<Rightarrow> Thrown h
      | Some (d, h1) \<Rightarrow>
          (case uninitialized_copy_n T (GetAddress (data' other)) (size' other) (GetAddress d) h1 of
             Undefined \<Rightarrow> Undefined
           | Thrown h2 \<Rightarrow>
               (case RawMemory_dtor d h2 of None \<Rightarrow> Undefined | Some h3 \<Rightarrow> Thrown h3)
           | Done h2 \<Rightarrow> Done (\<lparr>data' = d, size' = size' other\<rparr>, h2)))"

text \<open>\<^verbatim>\<open>Vector(Vector&& other)\<close>: the new object and \<^verbatim>\<open>other\<close> afterwards.\<close>

definition Vector_move_ctor :: "Vector \<Rightarrow> Vector \<times> Vector" where
  "Vector_move_ctor other =
     (case RawMemory_Swap RawMemory_default (data' other) of
        (d, od) \<Rightarrow> (\<lparr>data' = d, size' = size' other\<rparr>, other\<lparr>data' := od, size' := 0\<rparr>))"

text \<open>\<^verbatim>\<open>~Vector()\<close>, followed by the destructor of the member \<^verbatim>\<open>data_\<close>.\<close>

definition Vector_dtor :: "Vector \<Rightarrow> 'a heap \<Rightarrow> ('a heap, 'a heap) outcome" where
  "Vector_dtor v h =
     (case destroy_n (GetAddress (data' v)) (size' v) h of
        Done h1 \<Rightarrow>
          (case RawMemory_dtor (data' v) h1 of None \<Rightarrow> Undefined | Some h2 \<Rightarrow> Done h2)
      | Thrown h1 \<Rightarrow> Undefined
      | Undefined \<Rightarrow> Undefined)"

text \<open>
  The methods take the vector and the free store and return both. \<^verbatim>\<open>new_data\<close> is a local
  \<^verbatim>\<open>RawMemory\<close>: it is destroyed when its scope is left, normally or by an exception. When
  its allocation throws, the exception leaves the method before anything was changed.
\<close>

fun Reserve ::
  "'a T_traits \<Rightarrow> nat \<Rightarrow> Vector \<times> 'a heap \<Rightarrow> (Vector \<times> 'a heap, Vector \<times> 'a heap) outcome" where
  "Reserve T new_capacity (v, h) =
     (if new_capacity \<le> Capacity v then Done (v, h)
      else
        (case RawMemory_ctor T new_capacity h of
           None \<Rightarrow> Thrown (v, h)
         | Some (new_data, h1) \<Rightarrow>
             (case (if is_nothrow_move_constructible T \<or> \<not> is_copy_constructible T
                    then uninitialized_move_n T (Vector_begin v) (size' v) (GetAddress new_data) h1
                    else uninitialized_copy_n T (Vector_begin v) (size' v) (GetAddress new_data) h1) of
                Undefined \<Rightarrow> Undefined
              | Thrown h2 \<Rightarrow>
                  (case RawMemory_dtor new_data h2 of
                     None \<Rightarrow> Undefined
                   | Some h3 \<Rightarrow> Thrown (v, h3))
              | Done h2 \<Rightarrow>
                  (case destroy_n (Vector_begin v) (size' v) h2 of
                     Done h3 \<Rightarrow>
                       (case RawMemory_Swap (data' v) new_data of
                          (d, old_data) \<Rightarrow>
                            (case RawMemory_dtor old_data h3 of
                               None \<Rightarrow> Undefined
                             | Some h4 \<Rightarrow> Done (v\<lparr>data' := d\<rparr>, h4)))
                   | Thrown h3 \<Rightarrow> Undefined
                   | Undefined \<Rightarrow> Undefined))))"

definition Swap :: "Vector \<Rightarrow> Vector \<Rightarrow> Vector \<times> Vector" where
  "Swap this other =
     (case RawMemory_Swap (data' this) (data' other) of
        (d, od) \<Rightarrow>
          (let size_b = size' other
           in (this\<lparr>data' := d, size' := size_b\<rparr>, other\<lparr>data' := od, size' := size' this\<rparr>)))"

fun Resize ::
  "'a T_traits \<Rightarrow> nat \<Rightarrow> Vector \<times> 'a heap \<Rightarrow> (Vector \<times> 'a heap, Vector \<times> 'a heap) outcome" where
  "Resize T new_size (v, h) =
     (if new_size < size' v then
        (case destroy_n (ptr_add (ptr_add (GetAddress (data' v)) (int new_size)) (- 1))
                (size' v - new_size) h of
           Done h1 \<Rightarrow> Done (v\<lparr>size' := new_size\<rparr>, h1)
         | Thrown h1 \<Rightarrow> Undefined
         | Undefined \<Rightarrow> Undefined)
      else
        (case Reserve T new_size (v, h) of
           Undefined \<Rightarrow> Undefined
         | Thrown s \<Rightarrow> Thrown s
         | Done (v1, h1) \<Rightarrow>
             (case uninitialized_value_construct_n T
                     (ptr_add (GetAddress (data' v1)) (int (size' v1))) (new_size - size' v1) h1 of
                Undefined \<Rightarrow> Undefined
              | Thrown h2 \<Rightarrow> Thrown (v1, h2)
              | Done h2 \<Rightarrow> Done (v1\<lparr>size' := new_size\<rparr>, h2))))"

fun PopBack :: "Vector \<times> 'a heap \<Rightarrow> (Vector \<times> 'a heap, Vector \<times> 'a heap) outcome" where
  "PopBack (v, h) =
     (case Vector_end v of
        None \<Rightarrow> Undefined
      | Some e \<Rightarrow>
          (case destroy_at (ptr_add e (- 1)) h of
             Done h1 \<Rightarrow> Done (v\<lparr>size' := size' v - 1\<rparr>, h1)
           | Thrown h1 \<Rightarrow> Undefined
           | Undefined \<Rightarrow> Undefined))"

text \<open>
  \<^verbatim>\<open>EmplaceBack(args...)\<close>: \<^verbatim>\<open>args\<close> is the value that \<^verbatim>\<open>T(args...)\<close> builds, or \<^verbatim>\<open>None\<close> when
  that constructor throws. The result carries the address of the new element.
\<close>

fun EmplaceBack ::
  "'a T_traits \<Rightarrow> 'a option \<Rightarrow> Vector \<times> 'a heap \<Rightarrow>
     (ptr \<times> Vector \<times> 'a heap, Vector \<times> 'a heap) outcome" where
  "EmplaceBack T args (v, h) =
     (case
        (if size' v = Capacity v then
           (case RawMemory_ctor T (if size' v = 0 then 1 else size' v * 2) h of
              None \<Rightarrow> Thrown (v, h)
            | Some (new_data, h1) \<Rightarrow>
                (case RawMemory_index new_data (size' v) of
                   None \<Rightarrow> Undefined
                 | Some p \<Rightarrow>
                     (case construct_at p args h1 of
                        Undefined \<Rightarrow> Undefined
                      | Thrown h2 \<Rightarrow>
                          (case RawMemory_dtor new_data h2 of
                             None \<Rightarrow> Undefined
                           | Some h3 \<Rightarrow> Thrown (v, h3))
                      | Done h2 \<Rightarrow>
                          (case (if is_nothrow_move_constructible T \<or> \<not> is_copy_constructible T
                                 then uninitialized_move_n T (Vector_begin v) (size' v)
                                        (GetAddress new_data) h2
                                 else uninitialized_copy_n T (Vector_begin v) (size' v)
                                        (GetAddress new_data) h2) of
                             Undefined \<Rightarrow> Undefined
                           | Thrown h3 \<Rightarrow>
                               (case RawMemory_dtor new_data h3 of
                                  None \<Rightarrow> Undefined
                                | Some h4 \<Rightarrow> Thrown (v, h4))
                           | Done h3 \<Rightarrow>
                               (case destroy_n (Vector_begin v) (size' v) h3 of
                                  Done h4 \<Rightarrow>
                                    (case RawMemory_Swap (data' v) new_data of
                                       (d, old_data) \<Rightarrow>
                                         (case RawMemory_dtor old_data h4 of
                                            None \<Rightarrow> Undefined
                                          | Some h5 \<Rightarrow> Done (v\<lparr>data' := d\<rparr>, h5)))
                                | Thrown h4 \<Rightarrow> Undefined
                                | Undefined \<Rightarrow> Undefined)))))
         else
           (case RawMemory_index (data' v) (size' v) of
              None \<Rightarrow> Undefined
            | Some p \<Rightarrow>
                (case construct_at p args h of
                   Undefined \<Rightarrow> Undefined
                 | Thrown h1 \<Rightarrow> Thrown (v, h1)
                 | Done h1 \<Rightarrow> Done (v, h1)))) of
        Undefined \<Rightarrow> Undefined
      | Thrown s \<Rightarrow> Thrown s
      | Done (v1, h1) \<Rightarrow>
          (let v2 = v1\<lparr>size' := size' v1 + 1\<rparr>
           in case RawMemory_index (data' v2) (size' v2 - 1) of
                None \<Rightarrow> Undefined
              | Some r \<Rightarrow> Done (r, v2, h1)))"

text \<open>
  \<^verbatim>\<open>PushBack(const T& value)\<close> copy-constructs the new element, \<^verbatim>\<open>PushBack(T&& value)\<close>
  move-constructs it.
\<close>

fun PushBack ::
  "'a T_traits \<Rightarrow> 'a \<Rightarrow> Vector \<times> 'a heap \<Rightarrow> (Vector \<times> 'a heap, Vector \<times> 'a heap) outcome" where
  "PushBack T val (v, h) =
     (case EmplaceBack T (if copy_throws T val then None else Some val) (v, h) of
        Undefined \<Rightarrow> Undefined
      | Thrown s \<Rightarrow> Thrown s
      | Done (r, s) \<Rightarrow> Done s)"

fun PushBack_rvalue ::
  "'a T_traits \<Rightarrow> 'a \<Rightarrow> Vector \<times> 'a heap \<Rightarrow> (Vector \<times> 'a heap, Vector \<times> 'a heap) outcome" where
  "PushBack_rvalue T val (v, h) =
     (case EmplaceBack T (if move_throws T val then None else Some val) (v, h) of
        Undefined \<Rightarrow> Undefined
      | Thrown s \<Rightarrow> Thrown s
      | Done (r, s) \<Rightarrow> Done s)"

text \<open>
  \<^verbatim>\<open>Emplace(pos, args...)\<close>. \<^verbatim>\<open>distance\<close> is a \<^verbatim>\<open>ptrdiff_t\<close>; where the source casts it to
  \<^verbatim>\<open>size_t\<close> or subtracts it from \<^verbatim>\<open>size_\<close>, a negative or too large value would wrap to a
  count far beyond any block, which is written out as undefined behaviour.
\<close>

fun Emplace ::
  "'a T_traits \<Rightarrow> ptr \<Rightarrow> 'a option \<Rightarrow> Vector \<times> 'a heap \<Rightarrow>
     (ptr \<times> Vector \<times> 'a heap, Vector \<times> 'a heap) outcome" where
  "Emplace T pos args (v, h) =
     (case ptr_diff pos (Vector_begin v) of
        None \<Rightarrow> Undefined
      | Some distance \<Rightarrow>
          (case Vector_end v of
             None \<Rightarrow> Undefined
           | Some cend \<Rightarrow>
               if pos = cend then
                 (case EmplaceBack T args (v, h) of
                    Undefined \<Rightarrow> Undefined
                  | Thrown s \<Rightarrow> Thrown s
                  | Done (r, v1, h1) \<Rightarrow>
                      (case Vector_end v1 of
                         None \<Rightarrow> Undefined
                       | Some e1 \<Rightarrow> Done (ptr_add e1 (- 1), v1, h1)))
               else if size' v = Capacity v then
                 (case RawMemory_ctor T (if size' v = 0 then 1 else size' v * 2) h of
                    None \<Rightarrow> Thrown (v, h)
                  | Some (new_data, h1) \<Rightarrow>
                      if distance < 0 then Undefined
                      else
                        (case RawMemory_index new_data (nat distance) of
                           None \<Rightarrow> Undefined
                         | Some position \<Rightarrow>
                             (case construct_at position args h1 of
                                Undefined \<Rightarrow> Undefined
                              | Thrown h2 \<Rightarrow>
                                  (case RawMemory_dtor new_data h2 of
                                     None \<Rightarrow> Undefined
                                   | Some h3 \<Rightarrow> Thrown (v, h3))
                              | Done h2 \<Rightarrow>
                                  (case (if is_nothrow_move_constructible T \<or> \<not> is_copy_constructible T
                                         then
                                           (case uninitialized_move_n T (Vector_begin v)
                                                   (nat distance) (GetAddress new_data) h2 of
                                              Undefined \<Rightarrow> Undefined
                                            | Thrown h3 \<Rightarrow> Thrown h3
                                            | Done h3 \<Rightarrow>
                                                if size' v < nat distance then Undefined
                                                else
                                                  (case RawMemory_plus new_data (nat distance) of
                                                     None \<Rightarrow> Undefined
                                                   | Some nd \<Rightarrow>
                                                       uninitialized_move_n T
                                                         (ptr_add (Vector_begin v) distance)
                                                         (size' v - nat distance)
                                                         (ptr_add nd 1) h3))
                                         else
                                           (case uninitialized_copy_n T (Vector_begin v)
                                                   (nat distance) (GetAddress new_data) h2 of
                                              Undefined \<Rightarrow> Undefined
                                            | Thrown h3 \<Rightarrow> Thrown h3
                                            | Done h3 \<Rightarrow>
                                                if size' v < nat distance then Undefined
                                                else
                                                  (case RawMemory_plus new_data (nat distance) of
                                                     None \<Rightarrow> Undefined
                                                   | Some nd \<Rightarrow>
                                                       uninitialized_copy_n T
                                                         (ptr_add (Vector_begin v) distance)
                                                         (size' v - nat distance)
                                                         (ptr_add nd 1) h3))) of
                                     Undefined \<Rightarrow> Undefined
                                   | Thrown h4 \<Rightarrow>
                                       (case RawMemory_dtor new_data h4 of
                                          None \<Rightarrow> Undefined
                                        | Some h5 \<Rightarrow> Thrown (v, h5))
                                   | Done h4 \<Rightarrow>
                                       (case destroy_n (GetAddress (data' v)) (size' v) h4 of
                                          Done h5 \<Rightarrow>
                                            (case RawMemory_Swap (data' v) new_data of
                                               (d, old_data) \<Rightarrow>
                                                 (case RawMemory_dtor old_data h5 of
                                                    None \<Rightarrow> Undefined
                                                  | Some h6 \<Rightarrow>
                                                      Done (position,
                                                            v\<lparr>data' := d, size' := size' v + 1\<rparr>, h6)))
                                        | Thrown h5 \<Rightarrow> Undefined
                                        | Undefined \<Rightarrow> Undefined)))))
               else
                 (let position = ptr_add (Vector_begin v) distance
                  in case args of
                       None \<Rightarrow> Thrown (v, h)
                     | Some new_elem \<Rightarrow>
                         (case RawMemory_index (data' v) (size' v) of
                            None \<Rightarrow> Undefined
                          | Some fresh \<Rightarrow>
                              (case move_construct T (ptr_add cend (- 1)) fresh h of
                                 Undefined \<Rightarrow> Undefined
                               | Thrown h1 \<Rightarrow> Thrown (v, h1)
                               | Done h1 \<Rightarrow>
                                   (case move_backward T position (ptr_add cend (- 1)) cend h1 of
                                      Undefined \<Rightarrow> Undefined
                                    | Thrown h2 \<Rightarrow> Thrown (v, h2)
                                    | Done h2 \<Rightarrow>
                                        if distance < 0 then Undefined
                                        else
                                          (case RawMemory_index (data' v) (nat distance) of
                                             None \<Rightarrow> Undefined
                                           | Some target \<Rightarrow>
                                               (case move_assign_local T new_elem target h2 of
                                                  Undefined \<Rightarrow> Undefined
                                                | Thrown h3 \<Rightarrow> Thrown (v, h3)
                                                | Done h3 \<Rightarrow>
                                                    Done (position,
                                                          v\<lparr>size' := size' v + 1\<rparr>, h3)))))))))"

fun Erase ::
  "'a T_traits \<Rightarrow> ptr \<Rightarrow> Vector \<times> 'a heap \<Rightarrow>
     (ptr \<times> Vector \<times> 'a heap, Vector \<times> 'a heap) outcome" where
  "Erase T pos (v, h) =
     (case ptr_diff pos (Vector_begin v) of
        None \<Rightarrow> Undefined
      | Some distance \<Rightarrow>
          (let position = ptr_add (Vector_begin v) distance
           in case Vector_end v of
                None \<Rightarrow> Undefined
              | Some e \<Rightarrow>
                  (case std_move T (ptr_add position 1) e position h of
                     Undefined \<Rightarrow> Undefined
                   | Thrown h1 \<Rightarrow> Thrown (v, h1)
                   | Done h1 \<Rightarrow>
                       (case destroy_n (ptr_add e (- 1)) 1 h1 of
                          Done h2 \<Rightarrow> Done (position, v\<lparr>size' := size' v - 1\<rparr>, h2)
                        | Thrown h2 \<Rightarrow> Undefined
                        | Undefined \<Rightarrow> Undefined))))"

text \<open>\<^verbatim>\<open>Insert(pos, const T&)\<close> and \<^verbatim>\<open>Insert(pos, T&&)\<close>.\<close>

fun Insert ::
  "'a T_traits \<Rightarrow> ptr \<Rightarrow> 'a \<Rightarrow> Vector \<times> 'a heap \<Rightarrow>
     (ptr \<times> Vector \<times> 'a heap, Vector \<times> 'a heap) outcome" where
  "Insert T pos val (v, h) =
     Emplace T pos (if copy_throws T val then None else Some val) (v, h)"

fun Insert_rvalue ::
  "'a T_traits \<Rightarrow> ptr \<Rightarrow> 'a \<Rightarrow> Vector \<times> 'a heap \<Rightarrow>
     (ptr \<times> Vector \<times> 'a heap, Vector \<times> 'a heap) outcome" where
  "Insert_rvalue T pos val (v, h) =
     Emplace T pos (if move_throws T val then None else Some val) (v, h)"

section \<open>Assignment between two vector objects\<close>

text \<open>
  Copy-assignment compares the addresses of its two operands, so the operands are named
  by their addresses in a store of vector objects; the free store is shared.
\<close>

record 'a machine =
  objs :: "nat \<Rightarrow> Vector"
  mem :: "'a heap"

text \<open>
  The loop \<^verbatim>\<open>for (size_t i = 0; i != n; ++i) data_.GetAddress()[i] = rhs[i];\<close>
  from index \<^verbatim>\<open>i\<close> on, with \<^verbatim>\<open>k\<close> rounds to go.
\<close>

fun assign_elems ::
  "'a T_traits \<Rightarrow> Vector \<Rightarrow> Vector \<Rightarrow> nat \<Rightarrow> nat \<Rightarrow> 'a heap \<Rightarrow> ('a heap, 'a heap) outcome" where
  "assign_elems T this rhs i 0 h = Done h"
| "assign_elems T this rhs i (Suc k) h =
     (case Vector_index rhs i of
        None \<Rightarrow> Undefined
      | Some src \<Rightarrow>
          (case copy_assign T src (ptr_add (GetAddress (data' this)) (int i)) h of
             Done h1 \<Rightarrow> assign_elems T this rhs (i + 1) k h1
           | Thrown h1 \<Rightarrow> Thrown h1
           | Undefined \<Rightarrow> Undefined))"

definition operator_assign ::
  "'a T_traits \<Rightarrow> nat \<Rightarrow> nat \<Rightarrow> 'a machine \<Rightarrow> ('a machine, 'a machine) outcome" where
  "operator_assign T this rhs s =
     (if this \<noteq> rhs then
        (let v = objs s this; r = objs s rhs; h = mem s
         in if size' r > RawMemory_Capacity (data' v) then
              (case Vector_copy_ctor T r h of
                 Undefined \<Rightarrow> Undefined
               | Thrown h1 \<Rightarrow> Thrown (s\<lparr>mem := h1\<rparr>)
               | Done (rhs_copy, h1) \<Rightarrow>
                   (case Swap v rhs_copy of
                      (v1, rhs_copy1) \<Rightarrow>
                        (case Vector_dtor rhs_copy1 h1 of
                           Done h2 \<Rightarrow> Done (s\<lparr>objs := (objs s)(this := v1), mem := h2\<rparr>)
                         | Thrown h2 \<Rightarrow> Undefined
                         | Undefined \<Rightarrow> Undefined)))
            else if size' r < size' v then
              (case assign_elems T v r 0 (size' r) h of
                 Undefined \<Rightarrow> Undefined
               | Thrown h1 \<Rightarrow> Thrown (s\<lparr>mem := h1\<rparr>)
               | Done h1 \<Rightarrow>
                   (case destroy_n
                           (ptr_add (ptr_add (GetAddress (data' v)) (int (size' r))) (- 1))
                           (size' v - size' r) h1 of
                      Done h2 \<Rightarrow>
                        Done (s\<lparr>objs := (objs s)(this := v\<lparr>size' := size' r\<rparr>), mem := h2\<rparr>)
                    | Thrown h2 \<Rightarrow> Undefined
                    | Undefined \<Rightarrow> Undefined))
            else
              (case assign_elems T v r 0 (size' v) h of
                 Undefined \<Rightarrow> Undefined
               | Thrown h1 \<Rightarrow> Thrown (s\<lparr>mem := h1\<rparr>)
               | Done h1 \<Rightarrow>
                   (case uninitialized_copy_n T
                           (ptr_add (GetAddress (data' r)) (int (size' v)))
                           (size' r - size' v)
                           (ptr_add (GetAddress (data' v)) (int (size' v))) h1 of
                      Undefined \<Rightarrow> Undefined
                    | Thrown h2 \<Rightarrow> Thrown (s\<lparr>mem := h2\<rparr>)
                    | Done h2 \<Rightarrow>
                        Done (s\<lparr>objs := (objs s)(this := v\<lparr>size' := size' r\<rparr>), mem := h2\<rparr>))))
      else Done s)"

text \<open>\<^verbatim>\<open>Swap(other)\<close> and \<^verbatim>\<open>operator=(Vector&& rhs)\<close> on two objects of the store.\<close>

definition Swap_objs :: "nat \<Rightarrow> nat \<Rightarrow> 'a machine \<Rightarrow> 'a machine" where
  "Swap_objs this other s =
     (case Swap (objs s this) (objs s other) of
        (a, b) \<Rightarrow> s\<lparr>objs := (objs s)(this := a, other := b)\<rparr>)"

definition operator_move_assign :: "nat \<Rightarrow> nat \<Rightarrow> 'a machine \<Rightarrow> 'a machine" where
  "operator_move_assign this rhs s = Swap_objs this rhs s"

section \<open>Abstraction and example states\<close>

declare ptr_add.simps(2) [simp del]

declare Reserve.simps [simp del] Resize.simps [simp del] PopBack.simps [simp del]
  EmplaceBack.simps [simp del] PushBack.simps [simp del] PushBack_rvalue.simps [simp del]
  Emplace.simps [simp del] Erase.simps [simp del] Insert.simps [simp del]
  Insert_rvalue.simps [simp del]

text \<open>
  A vector \<open>v\<close> represents the sequence \<open>xs\<close> in the free store \<open>h\<close>: its size is the length
  of \<open>xs\<close>, its buffer is null with capacity 0 or the start of a block of exactly
  \<^verbatim>\<open>capacity\<close> slots, the first \<^verbatim>\<open>size\<close> slots hold the elements of \<open>xs\<close> as live objects and
  the others are uninitialised. This is the invariant of section 3 of the specification.
\<close>

definition represents :: "'a heap \<Rightarrow> Vector \<Rightarrow> 'a list \<Rightarrow> bool" where
  "represents h v xs \<longleftrightarrow>
     size' v = length xs \<and> length xs \<le> capacity' (data' v) \<and>
     (case buffer' (data' v) of
        Null \<Rightarrow> capacity' (data' v) = 0
      | Ptr a i \<Rightarrow>
          i = 0 \<and>
          block_at h a =
            Some (map Live xs @ replicate (capacity' (data' v) - length xs) Uninit))"

text \<open>
  Relocation into a new buffer moves the elements when
  \<^verbatim>\<open>is_nothrow_move_constructible_v<T> || !is_copy_constructible_v<T>\<close> and copies them
  otherwise. \<open>relocation_throws T x\<close> says that relocating the value \<open>x\<close> throws, and
  \<open>relocated_from T A i n\<close> is what the old block \<open>A\<close> looks like after \<open>n\<close> elements from
  slot \<open>i\<close> on have been relocated (moved-from objects, or the untouched originals).
\<close>

definition relocation_throws :: "'a T_traits \<Rightarrow> 'a \<Rightarrow> bool" where
  "relocation_throws T x =
     (if is_nothrow_move_constructible T \<or> \<not> is_copy_constructible T
      then move_throws T x else copy_throws T x)"

definition relocated_from :: "'a T_traits \<Rightarrow> 'a block \<Rightarrow> nat \<Rightarrow> nat \<Rightarrow> 'a block" where
  "relocated_from T A i n =
     (if is_nothrow_move_constructible T \<or> \<not> is_copy_constructible T
      then take i A @ replicate n Moved @ drop (i + n) A else A)"

text \<open>No element of \<open>xs\<close> throws when it is relocated, copied or moved, respectively.\<close>

definition relocates :: "'a T_traits \<Rightarrow> 'a list \<Rightarrow> bool" where
  "relocates T xs \<longleftrightarrow> list_all (\<lambda>x. \<not> relocation_throws T x) xs"

definition nothrow :: "'a T_traits \<Rightarrow> 'a list \<Rightarrow> bool" where
  "nothrow T xs \<longleftrightarrow> list_all (\<lambda>x. \<not> copy_throws T x \<and> \<not> move_throws T x) xs"

text \<open>
  A request for \<open>n\<close> objects fits \<^verbatim>\<open>size_t\<close> when the product \<^verbatim>\<open>n * sizeof(T)\<close> does not wrap
  around, and it is served when moreover \<^verbatim>\<open>operator new\<close> hands out that many bytes.
\<close>

definition fits_size_t :: "'a T_traits \<Rightarrow> nat \<Rightarrow> bool" where
  "fits_size_t T n \<longleftrightarrow> 0 < sizeof_T T \<and> n * sizeof_T T \<le> SIZE_MAX"

definition served :: "'a T_traits \<Rightarrow> nat \<Rightarrow> bool" where
  "served T n \<longleftrightarrow> fits_size_t T n \<and> n * sizeof_T T \<le> max_request T"

text \<open>
  The shape of the free store: which cells hold a block, and how many slots each block has.
  An operation that keeps the shape neither allocates nor releases nor resizes a block.
\<close>

definition shape :: "'a heap \<Rightarrow> nat option list" where
  "shape h = map (map_option length) h"

text \<open>A run of \<^verbatim>\<open>PushBack\<close> calls, one for each element of the list.\<close>

fun PushBack_all ::
  "'a T_traits \<Rightarrow> 'a list \<Rightarrow> Vector \<times> 'a heap \<Rightarrow> (Vector \<times> 'a heap, Vector \<times> 'a heap) outcome" where
  "PushBack_all T [] s = Done s"
| "PushBack_all T (x # xs) s =
     (case PushBack T x s of
        Done s1 \<Rightarrow> PushBack_all T xs s1
      | Thrown s1 \<Rightarrow> Thrown s1
      | Undefined \<Rightarrow> Undefined)"

text \<open>
  Two element types for the examples. Their objects carry an integer value and have a
  destructor that does something (a string, or a class that counts its live instances), so
  that destroying an object matters. For the first nothing throws and the move constructor
  is \<^verbatim>\<open>noexcept\<close>, so relocation moves; the move constructor of the second is not
  \<^verbatim>\<open>noexcept\<close>, so relocation copies. An object takes 8 bytes, and \<^verbatim>\<open>operator new\<close> serves
  every request up to \<^verbatim>\<open>PTRDIFF_MAX\<close> bytes.
\<close>

definition noexcept_traits :: "int T_traits" where
  "noexcept_traits =
     \<lparr>is_nothrow_move_constructible = True, is_copy_constructible = True,
      copy_throws = (\<lambda>x. False), move_throws = (\<lambda>x. False), value_init = Some 0,
      sizeof_T = 8, max_request = 2 ^ 63 - 1\<rparr>"

definition copying_traits :: "int T_traits" where
  "copying_traits =
     \<lparr>is_nothrow_move_constructible = False, is_copy_constructible = True,
      copy_throws = (\<lambda>x. False), move_throws = (\<lambda>x. False), value_init = Some 0,
      sizeof_T = 8, max_request = 2 ^ 63 - 1\<rparr>"

text \<open>A vector holding 1, 2, 3 in a block of three slots, and one holding 7.\<close>

definition vec123 :: Vector where
  "vec123 = \<lparr>data' = \<lparr>buffer' = Ptr 0 0, capacity' = 3\<rparr>, size' = 3\<rparr>"

definition vec7 :: Vector where
  "vec7 = \<lparr>data' = \<lparr>buffer' = Ptr 1 0, capacity' = 1\<rparr>, size' = 1\<rparr>"

definition heap123 :: "int heap" where
  "heap123 = [Some [Live 1, Live 2, Live 3], Some [Live 7]]"

definition machine123 :: "int machine" where
  "machine123 = \<lparr>objs = (\<lambda>a. Vector_default)(0 := vec123, 1 := vec7), mem = heap123\<rparr>"

text \<open>An element type whose copies and moves throw for negative values.\<close>

definition throwing_traits :: "int T_traits" where
  "throwing_traits =
     \<lparr>is_nothrow_move_constructible = False, is_copy_constructible = True,
      copy_throws = (\<lambda>x. x < 0), move_throws = (\<lambda>x. x < 0), value_init = Some 0,
      sizeof_T = 8, max_request = 2 ^ 63 - 1\<rparr>"

section \<open>How the algorithms act on blocks\<close>

text \<open>
  The lemmas of this section describe each primitive and each loop by its effect on the
  blocks it touches, for pointers at a natural-number offset into an allocated block.
\<close>

lemma ptr_add_Suc [simp]: "ptr_add (Ptr a (int i)) 1 = Ptr a (int (Suc i))"
  by (simp add: ptr_add.simps(2))

lemma ptr_add_pred [simp]: "ptr_add (Ptr a (int (Suc i))) (- 1) = Ptr a (int i)"
  by (simp add: ptr_add.simps(2))

lemma ptr_add_int [simp]: "ptr_add (Ptr a (int i)) (int n) = Ptr a (int (i + n))"
  by (simp add: ptr_add.simps(2))

lemma ptr_add_zero [simp]: "ptr_add (Ptr a 0) (int n) = Ptr a (int n)"
  by (simp add: ptr_add.simps(2))

lemma ptr_add_zero_one [simp]: "ptr_add (Ptr a 0) 1 = Ptr a (int 1)"
  by (simp add: ptr_add.simps(2))

lemma block_at_update:
  "block_at (h[a := x]) b = (if a = b \<and> a < length h then x else block_at h b)"
  by (simp add: block_at_def)

lemma block_at_Some_less: "block_at h a = Some A \<Longrightarrow> a < length h"
  by (simp add: block_at_def split: if_splits)

lemma slot_at_block:
  "block_at h a = Some A \<Longrightarrow> slot_at h (Ptr a (int i)) = (if i < length A then Some (A ! i) else None)"
  by simp

lemma put_slot_block:
  "block_at h a = Some A \<Longrightarrow> put_slot (Ptr a (int i)) x h = h[a := Some (A[i := x])]"
  by simp

lemma object_at_block:
  "block_at h a = Some A \<Longrightarrow> i < length A \<Longrightarrow> A ! i \<noteq> Uninit \<Longrightarrow>
     object_at h (Ptr a (int i)) = Some (A ! i)"
  by (cases "A ! i") (simp_all add: object_at_def)

lemma destroy_at_block:
  "block_at h a = Some A \<Longrightarrow> i < length A \<Longrightarrow> A ! i \<noteq> Uninit \<Longrightarrow>
     destroy_at (Ptr a (int i)) h = Done (h[a := Some (A[i := Uninit])])"
  by (simp add: destroy_at_def object_at_block del: slot_at.simps put_slot.simps) simp

lemma take_Suc_update: "i < length A \<Longrightarrow> take (Suc i) (A[i := x]) = take i A @ [x]"
  by (simp add: take_Suc_conv_app_nth)

lemma destroy_n_block:
  "block_at h a = Some A \<Longrightarrow> i + n \<le> length A \<Longrightarrow> (\<forall>k<n. A ! (i + k) \<noteq> Uninit) \<Longrightarrow>
     destroy_n (Ptr a (int i)) n h =
       Done (h[a := Some (take i A @ replicate n Uninit @ drop (i + n) A)])"
proof (induction n arbitrary: i A h)
  case 0
  then show ?case by (simp add: block_at_def split: if_splits) (metis list_update_id)
next
  case (Suc n)
  have a: "a < length h" using Suc.prems(1) by (rule block_at_Some_less)
  have i: "i < length A" using Suc.prems(2) by simp
  have l: "A ! i \<noteq> Uninit" using Suc.prems(3) by (metis add.right_neutral zero_less_Suc)
  let ?A1 = "A[i := Uninit]" and ?h1 = "h[a := Some (A[i := Uninit])]"
  have d: "destroy_at (Ptr a (int i)) h = Done ?h1"
    using Suc.prems(1) i l by (rule destroy_at_block)
  have b1: "block_at ?h1 a = Some ?A1" using a by (simp add: block_at_update)
  have r: "\<forall>k<n. ?A1 ! (Suc i + k) \<noteq> Uninit"
    using Suc.prems(3) by (metis Suc_less_eq add_Suc_shift less_add_Suc1 nat_neq_iff nth_list_update_neq) 
  have "destroy_n (Ptr a (int (Suc i))) n ?h1 =
       Done (?h1[a := Some (take (Suc i) ?A1 @ replicate n Uninit @ drop (Suc i + n) ?A1)])"
    using Suc.prems(2) by (intro Suc.IH[OF b1 _ r]) simp
  then show ?case using d i by (simp add: take_Suc_update)
qed

lemma move_construct_block:
  assumes "block_at h a = Some A" "block_at h b = Some B" "a \<noteq> b" "i < length A" "j < length B"
    "A ! i = Live x" "\<not> move_throws T x"
  shows "move_construct T (Ptr a (int i)) (Ptr b (int j)) h =
           Done (h[b := Some (B[j := Live x]), a := Some (A[i := Moved])])"
proof -
  have o: "object_at h (Ptr a (int i)) = Some (Live x)"
    using object_at_block[OF assms(1,4)] assms(6) by simp
  have s: "slot_at h (Ptr b (int j)) = Some (B ! j)" using assms(2,5) by simp
  have p1: "put_slot (Ptr b (int j)) (Live x) h = h[b := Some (B[j := Live x])]"
    using assms(2) by (rule put_slot_block)
  have "block_at (h[b := Some (B[j := Live x])]) a = Some A"
    using assms(1,3) by (simp add: block_at_update)
  then have p2: "put_slot (Ptr a (int i)) Moved (h[b := Some (B[j := Live x])]) =
      h[b := Some (B[j := Live x]), a := Some (A[i := Moved])]"
    by (rule put_slot_block)
  show ?thesis unfolding move_construct_def o s using assms(7) p1 p2 by simp
qed

lemma copy_construct_block:
  assumes "block_at h a = Some A" "block_at h b = Some B" "i < length A" "j < length B"
    "A ! i = Live x" "\<not> copy_throws T x"
  shows "copy_construct T (Ptr a (int i)) (Ptr b (int j)) h =
           Done (h[b := Some (B[j := Live x])])"
proof -
  have o: "object_at h (Ptr a (int i)) = Some (Live x)"
    using object_at_block[OF assms(1,3)] assms(5) by simp
  have s: "slot_at h (Ptr b (int j)) = Some (B ! j)" using assms(2,4) by simp
  have p1: "put_slot (Ptr b (int j)) (Live x) h = h[b := Some (B[j := Live x])]"
    using assms(2) by (rule put_slot_block)
  show ?thesis unfolding copy_construct_def o s using assms(6) p1 by simp
qed

lemma nth_update_if: "xs[i := x] ! j = (if i = j \<and> i < length xs then x else xs ! j)"
  by (cases "i < length xs") (auto simp: nth_list_update list_update_beyond)

lemma heap_update_twice:
  "a \<noteq> b \<Longrightarrow> h[b := X, a := Y, b := X', a := Y'] = h[b := X', a := Y']"
  by (simp add: list_eq_iff_nth_eq nth_update_if)

lemma blit_step:
  "i < length A \<Longrightarrow> j < length B \<Longrightarrow>
   take (Suc j) (B[j := A ! i]) @ take n (drop (Suc i) A') @ drop (Suc j + n) (B[j := A ! i]) =
   take j B @ (A ! i # take n (drop (Suc i) A')) @ drop (j + Suc n) B"
  by (simp add: take_Suc_update)

lemma uninitialized_move_n_block:
  "block_at h a = Some A \<Longrightarrow> block_at h b = Some B \<Longrightarrow> a \<noteq> b \<Longrightarrow>
   i + n \<le> length A \<Longrightarrow> j + n \<le> length B \<Longrightarrow>
   (\<forall>k<n. \<exists>x. A ! (i + k) = Live x \<and> \<not> move_throws T x) \<Longrightarrow>
   uninitialized_move_n T (Ptr a (int i)) n (Ptr b (int j)) h =
     Done (h[b := Some (take j B @ take n (drop i A) @ drop (j + n) B),
             a := Some (take i A @ replicate n Moved @ drop (i + n) A)])"
proof (induction n arbitrary: i j A B h)
  case 0
  then show ?case by (simp add: block_at_def split: if_splits) (metis list_update_id)
next
  case (Suc n)
  have a: "a < length h" using Suc.prems(1) by (rule block_at_Some_less)
  have b: "b < length h" using Suc.prems(2) by (rule block_at_Some_less)
  have i: "i < length A" and j: "j < length B" using Suc.prems(4,5) by simp_all
  obtain x where x: "A ! i = Live x" "\<not> move_throws T x"
    using Suc.prems(6) by (metis add.right_neutral zero_less_Suc)
  let ?A1 = "A[i := Moved]" and ?B1 = "B[j := Live x]"
  let ?h1 = "h[b := Some ?B1, a := Some ?A1]"
  have m: "move_construct T (Ptr a (int i)) (Ptr b (int j)) h = Done ?h1"
    using Suc.prems(1,2,3) i j x by (rule move_construct_block)
  have a1: "block_at ?h1 a = Some ?A1" using a by (simp add: block_at_update)
  have b1: "block_at ?h1 b = Some ?B1" using b Suc.prems(3) by (simp add: block_at_update)
  have r: "\<forall>k<n. \<exists>x. ?A1 ! (Suc i + k) = Live x \<and> \<not> move_throws T x"
  proof (intro allI impI)
    fix k assume "k < n"
    then have "Suc k < Suc n" by simp
    then have "\<exists>x. A ! (i + Suc k) = Live x \<and> \<not> move_throws T x" using Suc.prems(6) by blast
    then show "\<exists>x. ?A1 ! (Suc i + k) = Live x \<and> \<not> move_throws T x" by simp
  qed
  have "uninitialized_move_n T (Ptr a (int (Suc i))) n (Ptr b (int (Suc j))) ?h1 =
     Done (?h1[b := Some (take (Suc j) ?B1 @ take n (drop (Suc i) ?A1) @ drop (Suc j + n) ?B1),
             a := Some (take (Suc i) ?A1 @ replicate n Moved @ drop (Suc i + n) ?A1)])"
    using Suc.prems(4,5) by (intro Suc.IH[OF a1 b1 Suc.prems(3) _ _ r]) simp_all
  then show ?case using m i j x Suc.prems(3)
    by (simp add: take_Suc_update heap_update_twice Cons_nth_drop_Suc[symmetric])
qed

lemma uninitialized_copy_n_block:
  "block_at h a = Some A \<Longrightarrow> block_at h b = Some B \<Longrightarrow> a \<noteq> b \<Longrightarrow>
   i + n \<le> length A \<Longrightarrow> j + n \<le> length B \<Longrightarrow>
   (\<forall>k<n. \<exists>x. A ! (i + k) = Live x \<and> \<not> copy_throws T x) \<Longrightarrow>
   uninitialized_copy_n T (Ptr a (int i)) n (Ptr b (int j)) h =
     Done (h[b := Some (take j B @ take n (drop i A) @ drop (j + n) B)])"
proof (induction n arbitrary: i j B h)
  case 0
  then show ?case by (simp add: block_at_def split: if_splits) (metis list_update_id)
next
  case (Suc n)
  have a: "a < length h" using Suc.prems(1) by (rule block_at_Some_less)
  have b: "b < length h" using Suc.prems(2) by (rule block_at_Some_less)
  have i: "i < length A" and j: "j < length B" using Suc.prems(4,5) by simp_all
  obtain x where x: "A ! i = Live x" "\<not> copy_throws T x"
    using Suc.prems(6) by (metis add.right_neutral zero_less_Suc)
  let ?B1 = "B[j := Live x]"
  let ?h1 = "h[b := Some ?B1]"
  have m: "copy_construct T (Ptr a (int i)) (Ptr b (int j)) h = Done ?h1"
    using Suc.prems(1,2) i j x by (rule copy_construct_block)
  have a1: "block_at ?h1 a = Some A" using Suc.prems(1,3) by (simp add: block_at_update)
  have b1: "block_at ?h1 b = Some ?B1" using b by (simp add: block_at_update)
  have r: "\<forall>k<n. \<exists>x. A ! (Suc i + k) = Live x \<and> \<not> copy_throws T x"
  proof (intro allI impI)
    fix k assume "k < n"
    then have "Suc k < Suc n" by simp
    then have "\<exists>x. A ! (i + Suc k) = Live x \<and> \<not> copy_throws T x" using Suc.prems(6) by blast
    then show "\<exists>x. A ! (Suc i + k) = Live x \<and> \<not> copy_throws T x" by simp
  qed
  have "uninitialized_copy_n T (Ptr a (int (Suc i))) n (Ptr b (int (Suc j))) ?h1 =
     Done (?h1[b := Some (take (Suc j) ?B1 @ take n (drop (Suc i) A) @ drop (Suc j + n) ?B1)])"
    using Suc.prems(4,5) by (intro Suc.IH[OF a1 b1 Suc.prems(3) _ _ r]) simp_all
  then show ?case using m i j x
    by (simp add: take_Suc_update Cons_nth_drop_Suc[symmetric])
qed

lemma relocate_block:
  assumes "block_at h a = Some A" "block_at h b = Some B" "a \<noteq> b"
    "i + n \<le> length A" "j + n \<le> length B"
    "\<forall>k<n. \<exists>x. A ! (i + k) = Live x \<and> \<not> relocation_throws T x"
  shows "(if is_nothrow_move_constructible T \<or> \<not> is_copy_constructible T
          then uninitialized_move_n T (Ptr a (int i)) n (Ptr b (int j)) h
          else uninitialized_copy_n T (Ptr a (int i)) n (Ptr b (int j)) h) =
     Done (h[b := Some (take j B @ take n (drop i A) @ drop (j + n) B),
             a := Some (relocated_from T A i n)])"
proof (cases "is_nothrow_move_constructible T \<or> \<not> is_copy_constructible T")
  case True
  have "\<forall>k<n. \<exists>x. A ! (i + k) = Live x \<and> \<not> move_throws T x"
    using assms(6) True by (simp add: relocation_throws_def)
  from uninitialized_move_n_block[OF assms(1-5) this] True
  show ?thesis by (simp add: relocated_from_def)
next
  case False
  have a: "a < length h" using assms(1) by (rule block_at_Some_less)
  have "\<forall>k<n. \<exists>x. A ! (i + k) = Live x \<and> \<not> copy_throws T x"
    using assms(6) False by (simp add: relocation_throws_def)
  from uninitialized_copy_n_block[OF assms(1-5) this] False
  have "(if is_nothrow_move_constructible T \<or> \<not> is_copy_constructible T
          then uninitialized_move_n T (Ptr a (int i)) n (Ptr b (int j)) h
          else uninitialized_copy_n T (Ptr a (int i)) n (Ptr b (int j)) h) =
     Done (h[b := Some (take j B @ take n (drop i A) @ drop (j + n) B)])" by simp
  moreover have "h[b := Some (take j B @ take n (drop i A) @ drop (j + n) B), a := Some A]
     = h[b := Some (take j B @ take n (drop i A) @ drop (j + n) B)]"
    using assms(1,3) a by (simp add: list_eq_iff_nth_eq nth_update_if block_at_def)
  ultimately show ?thesis using False by (simp add: relocated_from_def)
qed

section \<open>How the methods act on a represented sequence\<close>

lemma block_at_append:
  "block_at (h @ [x]) a = (if a < length h then block_at h a else if a = length h then x else None)"
  by (simp add: block_at_def nth_append)

lemma represents_Null:
  "represents h v xs \<Longrightarrow> buffer' (data' v) = Null \<Longrightarrow>
     xs = [] \<and> size' v = 0 \<and> capacity' (data' v) = 0"
  by (auto simp: represents_def)

lemma represents_Ptr:
  "represents h v xs \<Longrightarrow> buffer' (data' v) = Ptr a i \<Longrightarrow>
     i = 0 \<and> size' v = length xs \<and> length xs \<le> capacity' (data' v) \<and>
     block_at h a = Some (map Live xs @ replicate (capacity' (data' v) - length xs) Uninit)"
  by (simp add: represents_def)

lemma served_mono: "served T n \<Longrightarrow> m \<le> n \<Longrightarrow> served T m"
proof -
  assume s: "served T n" and m: "m \<le> n"
  have "m * sizeof_T T \<le> n * sizeof_T T" using m by (rule mult_le_mono1)
  then show ?thesis using s unfolding served_def fits_size_t_def by linarith
qed

lemma growth_capacity: "(if n = 0 then 1 else n * 2) = max (1 :: nat) (2 * n)"
  by (cases n) simp_all

text \<open>
  The doubled capacity of a growing append fits \<^verbatim>\<open>size_t\<close> whenever the elements that the
  vector holds take at most half of its range, which is the case when their storage is no
  larger than \<^verbatim>\<open>PTRDIFF_MAX\<close> bytes.
\<close>

lemma doubling_fits:
  assumes "0 < sizeof_T T" and "sizeof_T T \<le> SIZE_MAX" and "2 * (n * sizeof_T T) \<le> SIZE_MAX"
  shows "fits_size_t T (max 1 (2 * n))"
proof (cases n)
  case 0
  then show ?thesis using assms by (simp add: fits_size_t_def)
next
  case (Suc m)
  then have "max 1 (2 * n) = 2 * n" by simp
  then show ?thesis using assms by (simp add: fits_size_t_def mult.assoc)
qed

lemma fits_size_t_bytes:
  "fits_size_t T n \<Longrightarrow>
     (n * sizeof_T T) mod (SIZE_MAX + 1) = n * sizeof_T T \<and> (n * sizeof_T T) div sizeof_T T = n"
  by (simp add: fits_size_t_def)

lemma RawMemory_ctor_pos:
  "0 < k \<Longrightarrow> served T k \<Longrightarrow> RawMemory_ctor T k h =
     Some (\<lparr>buffer' = Ptr (length h) 0, capacity' = k\<rparr>, h @ [Some (replicate k Uninit)])"
  using fits_size_t_bytes[of T k]
  by (simp add: RawMemory_ctor_def Allocate_def operator_new_def served_def)

lemma RawMemory_ctor_refused:
  "0 < k \<Longrightarrow> fits_size_t T k \<Longrightarrow> max_request T < k * sizeof_T T \<Longrightarrow>
     RawMemory_ctor T k h = None"
  using fits_size_t_bytes[of T k]
  by (simp add: RawMemory_ctor_def Allocate_def operator_new_def)

lemma RawMemory_dtor_Null: "buffer' m = Null \<Longrightarrow> RawMemory_dtor m h = Some h"
  by (simp add: RawMemory_dtor_def Deallocate_def operator_delete_def)

lemma RawMemory_dtor_block:
  "buffer' m = Ptr a 0 \<Longrightarrow> block_at h a = Some A \<Longrightarrow> RawMemory_dtor m h = Some (h[a := None])"
  by (simp add: RawMemory_dtor_def Deallocate_def operator_delete_def)

lemma live_prefix:
  "list_all P xs \<Longrightarrow> \<forall>k<length xs. \<exists>x. (map Live xs @ R) ! k = Live x \<and> P x"
  by (simp add: nth_append list_all_length)


lemma ptr_add_0 [simp]: "ptr_add p 0 = p"
  by (cases p) (simp_all add: ptr_add.simps(2))

lemma replicate_update:
  "n < k \<Longrightarrow> (replicate k u)[n := y] = replicate n u @ y # replicate (k - Suc n) u"
  by (simp add: list_eq_iff_nth_eq nth_update_if nth_append nth_Cons split: nat.splits)

lemma live_free_update:
  "0 < m \<Longrightarrow> (map Live xs @ replicate m Uninit)[length xs := y] =
     map Live xs @ y # replicate (m - 1) Uninit"
  by (cases m) (simp_all add: list_update_append)

lemma construct_at_block:
  "block_at h a = Some A \<Longrightarrow> i < length A \<Longrightarrow>
     construct_at (Ptr a (int i)) (Some x) h = Done (h[a := Some (A[i := Live x])])"
  by (simp add: construct_at_def)

lemma EmplaceBack_appends:
  assumes r: "represents h v xs" and t: "relocates T xs"
    and g: "served T (max 1 (2 * length xs))"
  shows "\<exists>p v' h'. EmplaceBack T (Some x) (v, h) = Done (p, v', h') \<and>
           represents h' v' (xs @ [x]) \<and>
           p = ptr_add (Vector_begin v') (int (length xs)) \<and>
           Capacity v' = (if size' v = Capacity v then max 1 (2 * Capacity v) else Capacity v)"
proof (cases "buffer' (data' v)")
  case Null
  then have e: "xs = []" "size' v = 0" "capacity' (data' v) = 0"
    using represents_Null[OF r] by simp_all
  have g1: "served T (Suc 0)" using g e by simp
  show ?thesis using Null e
    by (simp add: EmplaceBack.simps Capacity_def RawMemory_Capacity_def
        RawMemory_ctor_pos[OF _ g1]
        RawMemory_index_def construct_at_def block_at_append Vector_begin_def GetAddress_def
        RawMemory_Swap_def RawMemory_dtor_Null represents_def block_at_update
        split del: if_split cong: if_cong)
next
  case (Ptr a i)
  let ?c = "capacity' (data' v)" and ?n = "length xs" and ?b = "length h"
  let ?A = "map Live xs @ replicate (?c - ?n) Uninit"
  from represents_Ptr[OF r Ptr]
  have i: "i = 0" and n: "size' v = ?n" and c: "?n \<le> ?c" and A: "block_at h a = Some ?A"
    by simp_all
  have a: "a < ?b" using A by (rule block_at_Some_less)
  have beg: "Vector_begin v = Ptr a 0" using Ptr i by (simp add: Vector_begin_def GetAddress_def)
  show ?thesis
  proof (cases "?n = ?c")
    case True
    define k where "k = (if size' v = 0 then 1 else size' v * 2)"
    define nd where "nd = \<lparr>buffer' = Ptr ?b 0, capacity' = k\<rparr>"
    define h1 where "h1 = h @ [Some (replicate k (Uninit :: 'a slot))]"
    define B1 where "B1 = replicate ?n Uninit @ Live x # replicate (k - Suc ?n) Uninit"
    define h2 where "h2 = h1[?b := Some B1]"
    define B3 where "B3 = map Live xs @ Live x # replicate (k - Suc ?n) Uninit"
    define A3 where "A3 = relocated_from T ?A 0 ?n"
    define h3 where "h3 = h2[?b := Some B3, a := Some A3]"
    define h4 where "h4 = h3[a := Some (replicate ?n Uninit @ drop ?n A3)]"
    define v1 where "v1 = v\<lparr>data' := \<lparr>buffer' = Ptr ?b 0, capacity' = k\<rparr>\<rparr>"
    have k0: "0 < k" and nk: "?n < k" using n by (simp_all add: k_def)
    have grow: "size' v = Capacity v" using True n by (simp add: Capacity_def RawMemory_Capacity_def)
    have sv: "served T k" unfolding k_def n growth_capacity by (rule g)
    have s1: "RawMemory_ctor T (if size' v = 0 then 1 else size' v * 2) h = Some (nd, h1)"
      using RawMemory_ctor_pos[OF k0 sv, of h] by (simp add: k_def nd_def h1_def)
    have s2: "RawMemory_index nd (size' v) = Some (Ptr ?b (int ?n))"
      using nk n by (simp add: RawMemory_index_def nd_def)
    have B: "block_at h1 ?b = Some (replicate k Uninit)" by (simp add: h1_def block_at_append)
    have s3: "construct_at (Ptr ?b (int ?n)) (Some x) h1 = Done h2"
      using construct_at_block[OF B, of ?n x] nk replicate_update[OF nk, of Uninit "Live x"]
      by (simp add: h2_def B1_def)
    have b1: "?b < length h1" by (simp add: h1_def)
    have a1: "a < length h1" using a by (simp add: h1_def)
    have ab: "a \<noteq> ?b" using a by simp
    have A2: "block_at h2 a = Some ?A"
      using A a by (simp add: h2_def h1_def block_at_append block_at_update)
    have B2: "block_at h2 ?b = Some B1" using b1 by (simp add: h2_def block_at_update)
    have live: "\<forall>j<?n. \<exists>x. ?A ! (0 + j) = Live x \<and> \<not> relocation_throws T x"
      using t live_prefix[of "\<lambda>x. \<not> relocation_throws T x" xs] by (simp add: relocates_def)
    have s4: "(if is_nothrow_move_constructible T \<or> \<not> is_copy_constructible T
          then uninitialized_move_n T (Vector_begin v) (size' v) (GetAddress nd) h2
          else uninitialized_copy_n T (Vector_begin v) (size' v) (GetAddress nd) h2) = Done h3"
      using relocate_block[OF A2 B2 ab _ _ live, of 0] c nk n
      by (simp add: beg GetAddress_def nd_def h3_def B3_def B1_def A3_def
          split del: if_split cong: if_cong)
    have A3: "block_at h3 a = Some A3"
      using a1 by (simp add: h3_def h2_def block_at_update)
    have A3len: "0 + ?n \<le> length A3" using c by (simp add: A3_def relocated_from_def)
    have A3live: "\<forall>j<?n. A3 ! (0 + j) \<noteq> Uninit"
      by (simp add: A3_def relocated_from_def nth_append)
    have s5: "destroy_n (Vector_begin v) (size' v) h3 = Done h4"
      using destroy_n_block[OF A3 A3len A3live] n by (simp add: beg h4_def)
    have s6: "RawMemory_Swap (data' v) nd = (nd, data' v)"
      by (simp add: RawMemory_Swap_def nd_def)
    have s7: "RawMemory_dtor (data' v) h4 = Some (h4[a := None])"
      using Ptr i a1 by (simp add: RawMemory_dtor_def Deallocate_def operator_delete_def
          h4_def h3_def h2_def block_at_update)
    have s8: "RawMemory_index (data' (v\<lparr>data' := nd, size' := size' v + 1\<rparr>))
                (size' (v\<lparr>data' := nd, size' := size' v + 1\<rparr>) - 1) = Some (Ptr ?b (int ?n))"
      using nk n by (simp add: RawMemory_index_def nd_def)
    have res: "EmplaceBack T (Some x) (v, h) =
        Done (Ptr ?b (int ?n), v\<lparr>data' := nd, size' := size' v + 1\<rparr>, h4[a := None])"
      by (simp add: EmplaceBack.simps eqTrueI[OF grow] s1 s2 s3 s4 s5 s6 s7 s8 Let_def
          split del: if_split)
    have "represents (h4[a := None]) (v\<lparr>data' := nd, size' := size' v + 1\<rparr>) (xs @ [x])"
      using ab a a1 b1 nk n
      by (simp add: represents_def nd_def h4_def h3_def h2_def B3_def block_at_update)
    then show ?thesis using res grow n True
      by (auto simp: Capacity_def RawMemory_Capacity_def nd_def k_def Vector_begin_def
          GetAddress_def)
  next
    case False
    then have lt: "?n < ?c" using c by simp
    define h1 where "h1 = h[a := Some (map Live xs @ Live x # replicate (?c - ?n - 1) Uninit)]"
    have nogrow: "size' v \<noteq> Capacity v"
      using False n by (simp add: Capacity_def RawMemory_Capacity_def)
    have s1: "RawMemory_index (data' v) (size' v) = Some (Ptr a (int ?n))"
      using lt n Ptr i by (simp add: RawMemory_index_def)
    have s2: "construct_at (Ptr a (int ?n)) (Some x) h = Done h1"
      using construct_at_block[OF A, of ?n x] lt live_free_update[of "?c - ?n" xs "Live x"]
      by (simp add: h1_def)
    have s3: "RawMemory_index (data' (v\<lparr>size' := size' v + 1\<rparr>))
                (size' (v\<lparr>size' := size' v + 1\<rparr>) - 1) = Some (Ptr a (int ?n))"
      using lt n Ptr i by (simp add: RawMemory_index_def)
    have res: "EmplaceBack T (Some x) (v, h) = Done (Ptr a (int ?n), v\<lparr>size' := size' v + 1\<rparr>, h1)"
      by (simp add: EmplaceBack.simps nogrow s1 s2 s3 Let_def split del: if_split)
    have "represents h1 (v\<lparr>size' := size' v + 1\<rparr>) (xs @ [x])"
      using Ptr i lt a n by (simp add: represents_def h1_def block_at_update Suc_diff_Suc)
    then show ?thesis using res nogrow beg
      by (auto simp: Capacity_def RawMemory_Capacity_def Vector_begin_def GetAddress_def)
  qed
qed

lemma PushBack_appends:
  assumes "represents h v xs" "relocates T xs" "\<not> copy_throws T x"
    and "served T (max 1 (2 * length xs))"
  shows "\<exists>v' h'. PushBack T x (v, h) = Done (v', h') \<and> represents h' v' (xs @ [x]) \<and>
           Capacity v' = (if size' v = Capacity v then max 1 (2 * Capacity v) else Capacity v)"
proof -
  from EmplaceBack_appends[OF assms(1,2,4), of x] obtain p v' h' where
    "EmplaceBack T (Some x) (v, h) = Done (p, v', h')" "represents h' v' (xs @ [x])"
    "Capacity v' = (if size' v = Capacity v then max 1 (2 * Capacity v) else Capacity v)"
    by blast
  then show ?thesis using assms(3) by (simp add: PushBack.simps)
qed

lemma relocates_append: "relocates T (xs @ ys) \<longleftrightarrow> relocates T xs \<and> relocates T ys"
  by (simp add: relocates_def)

lemma PushBack_all_appends:
  "represents h v ys \<Longrightarrow> relocates T (ys @ xs) \<Longrightarrow> list_all (\<lambda>x. \<not> copy_throws T x) xs \<Longrightarrow>
   served T (max 1 (2 * length (ys @ xs))) \<Longrightarrow>
   \<exists>v' h'. PushBack_all T xs (v, h) = Done (v', h') \<and> represents h' v' (ys @ xs)"
proof (induction xs arbitrary: v h ys)
  case Nil
  then show ?case by simp
next
  case (Cons x xs)
  have "relocates T ys" using Cons.prems(2) by (simp add: relocates_append)
  moreover have "\<not> copy_throws T x" using Cons.prems(3) by simp
  moreover have "served T (max 1 (2 * length ys))"
    using Cons.prems(4) by (rule served_mono) simp
  ultimately obtain v1 h1 where
    p: "PushBack T x (v, h) = Done (v1, h1)" "represents h1 v1 (ys @ [x])"
    using PushBack_appends[OF Cons.prems(1), of T x] by blast
  have "relocates T ((ys @ [x]) @ xs)" using Cons.prems(2) by simp
  moreover have "list_all (\<lambda>x. \<not> copy_throws T x) xs" using Cons.prems(3) by simp
  moreover have "served T (max 1 (2 * length ((ys @ [x]) @ xs)))" using Cons.prems(4) by simp
  ultimately have "\<exists>v' h'. PushBack_all T xs (v1, h1) = Done (v', h') \<and>
      represents h' v' ((ys @ [x]) @ xs)"
    by (rule Cons.IH[OF p(2)])
  then
  obtain v' h' where "PushBack_all T xs (v1, h1) = Done (v', h')" "represents h' v' ((ys @ [x]) @ xs)"
    by auto
  then show ?case using p(1) by simp
qed

lemma represents_default: "represents h Vector_default []"
  by (simp add: represents_def Vector_default_def RawMemory_default_def)

lemma ptr_add_minus_one: "0 < n \<Longrightarrow> ptr_add (Ptr a (int n)) (- 1) = Ptr a (int (n - 1))"
  by (cases n) (simp_all add: ptr_add.simps(2))

lemma heap_update_same: "block_at h a = Some A \<Longrightarrow> h[a := Some A] = h"
  by (metis block_at_def list_update_id option.distinct(1))

lemma move_assign_block:
  assumes "block_at h a = Some A" "i < length A" "j < length A"
    "A ! i = Live x" "\<not> move_throws T x" "A ! j \<noteq> Uninit"
  shows "move_assign T (Ptr a (int i)) (Ptr a (int j)) h =
           Done (h[a := Some (A[j := Live x, i := Moved])])"
proof -
  have a: "a < length h" using assms(1) by (rule block_at_Some_less)
  have o: "object_at h (Ptr a (int i)) = Some (Live x)"
    using object_at_block[OF assms(1,2)] assms(4) by simp
  have d: "object_at h (Ptr a (int j)) = Some (A ! j)"
    using object_at_block[OF assms(1,3,6)] .
  have p1: "put_slot (Ptr a (int j)) (Live x) h = h[a := Some (A[j := Live x])]"
    using assms(1) by (rule put_slot_block)
  have "block_at (h[a := Some (A[j := Live x])]) a = Some (A[j := Live x])"
    using a by (simp add: block_at_update)
  then have p2: "put_slot (Ptr a (int i)) Moved (h[a := Some (A[j := Live x])]) =
      h[a := Some (A[j := Live x, i := Moved])]"
    using put_slot_block[of "h[a := Some (A[j := Live x])]" a "A[j := Live x]" i Moved] by simp
  show ?thesis unfolding move_assign_def o d using assms(5) p1 p2 by simp
qed

lemma move_n_block:
  "block_at h a = Some A \<Longrightarrow> i + n < length A \<Longrightarrow> A ! i \<noteq> Uninit \<Longrightarrow>
   (\<forall>k<n. \<exists>x. A ! (Suc i + k) = Live x \<and> \<not> move_throws T x) \<Longrightarrow>
   move_n T (Ptr a (int (Suc i))) n (Ptr a (int i)) h =
     Done (h[a := Some (take i A @ take n (drop (Suc i) A) @
                        (if n = 0 then A ! i else Moved) # drop (Suc (i + n)) A)])"
proof (induction n arbitrary: i A h)
  case 0
  then show ?case by (simp add: id_take_nth_drop[symmetric] heap_update_same)
next
  case (Suc n)
  have a: "a < length h" using Suc.prems(1) by (rule block_at_Some_less)
  have i: "i < length A" "Suc i < length A" using Suc.prems(2) by simp_all
  obtain x where x: "A ! Suc i = Live x" "\<not> move_throws T x"
    using Suc.prems(4) by (metis add.right_neutral zero_less_Suc)
  let ?A1 = "A[i := Live x, Suc i := Moved]"
  let ?h1 = "h[a := Some ?A1]"
  have m: "move_assign T (Ptr a (int (Suc i))) (Ptr a (int i)) h = Done ?h1"
    using Suc.prems(1) i(2,1) x Suc.prems(3) by (rule move_assign_block)
  have a1: "block_at ?h1 a = Some ?A1" using a by (simp add: block_at_update)
  have l: "Suc i + n < length ?A1" using Suc.prems(2) by simp
  have o: "?A1 ! Suc i \<noteq> Uninit" using i by simp
  have r: "\<forall>k<n. \<exists>x. ?A1 ! (Suc (Suc i) + k) = Live x \<and> \<not> move_throws T x"
  proof (intro allI impI)
    fix k assume "k < n"
    then have "Suc k < Suc n" by simp
    then have "\<exists>x. A ! (Suc i + Suc k) = Live x \<and> \<not> move_throws T x" using Suc.prems(4) by blast
    then show "\<exists>x. ?A1 ! (Suc (Suc i) + k) = Live x \<and> \<not> move_throws T x" by simp
  qed
  have t: "take (Suc i) ?A1 = take i A @ [Live x]"
    using i by (simp add: take_Suc_conv_app_nth)
  let ?R1 = "take (Suc i) ?A1 @ take n (drop (Suc (Suc i)) ?A1) @
                        (if n = 0 then ?A1 ! Suc i else Moved) # drop (Suc (Suc i + n)) ?A1"
  let ?R = "take i A @ take (Suc n) (drop (Suc i) A) @
                        (if Suc n = 0 then A ! i else Moved) # drop (Suc (i + Suc n)) A"
  have step: "move_n T (Ptr a (int (Suc i))) (Suc n) (Ptr a (int i)) h =
      move_n T (Ptr a (int (Suc (Suc i)))) n (Ptr a (int (Suc i))) ?h1"
    by (simp only: move_n.simps m outcome.case ptr_add_Suc)
  have ih: "move_n T (Ptr a (int (Suc (Suc i)))) n (Ptr a (int (Suc i))) ?h1 =
     Done (?h1[a := Some ?R1])"
    by (rule Suc.IH[OF a1 l o r])
  have eq: "?R1 = ?R" using i x t by (simp add: Cons_nth_drop_Suc[symmetric])
  show ?case by (simp only: step ih eq list_update_overwrite)
qed

lemma update_middle:
  "length P = i \<Longrightarrow> length Q = m \<Longrightarrow> (P @ Q @ y # S)[i + m := u] = P @ Q @ u # S"
  by (simp add: list_update_append)

lemma nth_middle:
  "length P = i \<Longrightarrow> length Q = m \<Longrightarrow> (P @ Q @ y # S) ! (i + m) = y"
  by (simp add: nth_append)

lemma Erase_removes:
  assumes r: "represents h v xs" and i: "i < length xs"
    and t: "list_all (\<lambda>x. \<not> move_throws T x) xs"
  shows "\<exists>v' h'. Erase T (ptr_add (Vector_begin v) (int i)) (v, h) =
             Done (ptr_add (Vector_begin v') (int i), v', h') \<and>
           represents h' v' (take i xs @ drop (Suc i) xs) \<and> data' v' = data' v"
proof (cases "buffer' (data' v)")
  case Null
  then show ?thesis using represents_Null[OF r] i by simp
next
  case (Ptr a j)
  let ?c = "capacity' (data' v)" and ?n = "length xs"
  let ?A = "map Live xs @ replicate (?c - ?n) Uninit"
  from represents_Ptr[OF r Ptr]
  have j: "j = 0" and n: "size' v = ?n" and c: "?n \<le> ?c" and A: "block_at h a = Some ?A"
    by simp_all
  have a: "a < length h" using A by (rule block_at_Some_less)
  have beg: "Vector_begin v = Ptr a 0" using Ptr j by (simp add: Vector_begin_def GetAddress_def)
  define m where "m = ?n - Suc i"
  define R1 where "R1 = take i ?A @ take m (drop (Suc i) ?A) @
                        (if m = 0 then ?A ! i else Moved) # drop (Suc (i + m)) ?A"
  define h1 where "h1 = h[a := Some R1]"
  define R2 where "R2 = map Live (take i xs @ drop (Suc i) xs) @ replicate (?c - (?n - 1)) Uninit"
  define h2 where "h2 = h1[a := Some R2]"
  have im: "i + m < length ?A" "Suc (i + m) = ?n" using i c by (simp_all add: m_def)
  have s1: "ptr_diff (Ptr a (int i)) (Vector_begin v) = Some (int i)"
    by (simp add: beg)
  have s2: "Vector_end v = Some (Ptr a (int ?n))"
    using c n Ptr j by (simp add: Vector_end_def RawMemory_plus_def)
  have s3: "ptr_add (Vector_begin v) (int i) = Ptr a (int i)" by (simp add: beg)
  have o: "?A ! i \<noteq> Uninit" using i by (simp add: nth_append)
  have live: "\<forall>k<m. \<exists>x. ?A ! (Suc i + k) = Live x \<and> \<not> move_throws T x"
  proof (intro allI impI)
    fix k assume "k < m"
    then have k: "Suc i + k < ?n" by (simp add: m_def)
    then have "\<not> move_throws T (xs ! (Suc i + k))" using t by (simp add: list_all_length)
    then show "\<exists>x. ?A ! (Suc i + k) = Live x \<and> \<not> move_throws T x"
      using k by (simp add: nth_append)
  qed
  have d: "ptr_diff (Ptr a (int ?n)) (ptr_add (Ptr a (int i)) 1) = Some (int m)"
    using i by (simp add: m_def)
  have mv: "move_n T (Ptr a (int (Suc i))) m (Ptr a (int i)) h = Done h1"
    unfolding h1_def R1_def by (rule move_n_block[OF A im(1) o live])
  have "std_move T (ptr_add (Ptr a (int i)) 1) (Ptr a (int ?n)) (Ptr a (int i)) h =
      move_n T (ptr_add (Ptr a (int i)) 1) (nat (int m)) (Ptr a (int i)) h"
    unfolding std_move_def d by simp
  then have s4: "std_move T (ptr_add (Ptr a (int i)) 1) (Ptr a (int ?n)) (Ptr a (int i)) h = Done h1"
    by (simp only: ptr_add_Suc nat_int mv)
  have A1: "block_at h1 a = Some R1" using a by (simp add: h1_def block_at_update)
  have P: "length (take i ?A) = i" using i by simp
  have Q: "length (take m (drop (Suc i) ?A)) = m" using i c by (simp add: m_def)
  have l1: "i + m < length R1" using P Q by (simp add: R1_def)
  have last1: "R1 ! (i + m) \<noteq> Uninit"
    unfolding R1_def nth_middle[OF P Q] using o by simp
  have tl: "Uninit # drop (Suc (i + m)) ?A = replicate (?c - (?n - 1)) Uninit"
  proof -
    have "drop (Suc (i + m)) ?A = replicate (?c - ?n) Uninit" using im(2) by simp
    moreover have "?c - (?n - 1) = Suc (?c - ?n)" using i c by simp
    ultimately show ?thesis by simp
  qed
  have pre: "take i ?A @ take m (drop (Suc i) ?A) = map Live (take i xs @ drop (Suc i) xs)"
    using i by (simp add: m_def take_map drop_map)
  have upd: "R1[i + m := Uninit] = R2"
    unfolding R1_def R2_def update_middle[OF P Q] tl using pre by simp
  have nm: "?n - 1 = i + m" using i by (simp add: m_def)
  have e1: "ptr_add (Ptr a (int ?n)) (- 1) = Ptr a (int (i + m))"
  proof -
    have "0 < ?n" using i by (cases xs) simp_all
    from ptr_add_minus_one[OF this, of a] show ?thesis by (simp only: nm)
  qed
  have s5: "destroy_n (ptr_add (Ptr a (int ?n)) (- 1)) 1 h1 = Done h2"
    unfolding e1 using destroy_at_block[OF A1 l1 last1] upd
    by (simp add: h2_def)
  have res: "Erase T (ptr_add (Vector_begin v) (int i)) (v, h) =
      Done (Ptr a (int i), v\<lparr>size' := size' v - 1\<rparr>, h2)"
    by (simp only: Erase.simps s3 s1 s2 s4 s5 Let_def option.case outcome.case)
  have "represents h2 (v\<lparr>size' := size' v - 1\<rparr>) (take i xs @ drop (Suc i) xs)"
    using Ptr j a n i c by (simp add: represents_def h2_def h1_def block_at_update R2_def)
  then show ?thesis using res beg by (simp add: Vector_begin_def GetAddress_def)
qed

section \<open>Operations that shrink\<close>

lemma ptr_add_from_zero [simp]: "ptr_add (Ptr a 0) k = Ptr a k"
  by (simp add: ptr_add.simps(2))

lemma shape_put_slot: "shape (put_slot p x h) = shape h"
proof (cases p)
  case Null
  then show ?thesis by simp
next
  case (Ptr a i)
  show ?thesis
  proof (cases "block_at h a")
    case None
    then show ?thesis using Ptr by simp
  next
    case (Some b)
    then have "a < length h" "h ! a = Some b" by (simp_all add: block_at_def split: if_splits)
    then show ?thesis using Ptr Some
      by (simp add: shape_def list_eq_iff_nth_eq nth_update_if)
  qed
qed

lemma shape_destroy_at: "destroy_at p h = Done h' \<Longrightarrow> shape h' = shape h"
  by (auto simp: destroy_at_def shape_put_slot split: option.splits)

lemma shape_destroy_n: "destroy_n p n h = Done h' \<Longrightarrow> shape h' = shape h"
proof (induction n arbitrary: p h)
  case 0
  then show ?case by simp
next
  case (Suc n)
  then obtain h1 where 1: "destroy_at p h = Done h1" "destroy_n (ptr_add p 1) n h1 = Done h'"
    by (auto split: outcome.splits)
  from Suc.IH[OF 1(2)] shape_destroy_at[OF 1(1)] show ?case by simp
qed

lemma shape_move_assign:
  "move_assign T src dst h = Done h' \<or> move_assign T src dst h = Thrown h' \<Longrightarrow> shape h' = shape h"
  by (auto simp: move_assign_def shape_put_slot split: option.splits if_splits)

lemma shape_move_n:
  "move_n T first n d_first h = Done h' \<or> move_n T first n d_first h = Thrown h' \<Longrightarrow>
     shape h' = shape h"
proof (induction n arbitrary: first d_first h)
  case 0
  then show ?case by simp
next
  case (Suc n)
  show ?case
  proof (cases "move_assign T first d_first h")
    case (Done h1)
    then have "move_n T (ptr_add first 1) n (ptr_add d_first 1) h1 = Done h' \<or>
               move_n T (ptr_add first 1) n (ptr_add d_first 1) h1 = Thrown h'"
      using Suc.prems by simp
    from Suc.IH[OF this] shape_move_assign[of T first d_first h h1] Done show ?thesis by simp
  next
    case (Thrown h1)
    then have "h1 = h'" using Suc.prems by simp
    then show ?thesis using shape_move_assign[of T first d_first h h'] Thrown by simp
  next
    case Undefined
    then show ?thesis using Suc.prems by simp
  qed
qed

lemma shape_std_move:
  "std_move T first last_it d_first h = Done h' \<or> std_move T first last_it d_first h = Thrown h' \<Longrightarrow>
     shape h' = shape h"
  by (auto simp: std_move_def dest: shape_move_n[OF disjI1] shape_move_n[OF disjI2]
      split: option.splits if_splits)

lemma shape_std_move_Done:
  "std_move T first last_it d_first h = Done h' \<Longrightarrow> shape h' = shape h"
  using shape_std_move[of T first last_it d_first h h'] by simp

lemma shape_std_move_Thrown:
  "std_move T first last_it d_first h = Thrown h' \<Longrightarrow> shape h' = shape h"
  using shape_std_move[of T first last_it d_first h h'] by simp

lemma Resize_shrink_frame:
  "new_size < size' v \<Longrightarrow> Resize T new_size (v, h) = Done (v1, h1) \<Longrightarrow>
     data' v1 = data' v \<and> shape h1 = shape h"
  by (auto simp: Resize.simps dest: shape_destroy_n split: outcome.splits)

lemma PopBack_frame:
  "PopBack (v, h) = Done (v1, h1) \<Longrightarrow> data' v1 = data' v \<and> shape h1 = shape h"
  by (auto simp: PopBack.simps dest: shape_destroy_at split: outcome.splits option.splits)

lemma Erase_frame:
  "Erase T pos (v, h) = Done (p, v1, h1) \<or> Erase T pos (v, h) = Thrown (v1, h1) \<Longrightarrow>
     data' v1 = data' v \<and> shape h1 = shape h"
  by (auto simp: Erase.simps Let_def dest!: shape_destroy_at shape_std_move_Done
      shape_std_move_Thrown split: outcome.splits option.splits)

lemma PopBack_removes:
  assumes r: "represents h v xs" and ne: "xs \<noteq> []"
  shows "\<exists>v' h'. PopBack (v, h) = Done (v', h') \<and> represents h' v' (butlast xs) \<and>
           data' v' = data' v"
proof (cases "buffer' (data' v)")
  case Null
  then show ?thesis using represents_Null[OF r] ne by simp
next
  case (Ptr a j)
  obtain ys y where xs: "xs = ys @ [y]" using ne by (cases xs rule: rev_cases) simp_all
  let ?c = "capacity' (data' v)" and ?m = "length ys"
  let ?A = "map Live ys @ Live y # replicate (?c - Suc ?m) Uninit"
  from represents_Ptr[OF r Ptr]
  have j: "j = 0" and n: "size' v = Suc ?m" and c: "Suc ?m \<le> ?c"
    and A: "block_at h a = Some ?A"
    by (simp_all add: xs)
  have a: "a < length h" using A by (rule block_at_Some_less)
  define h1 where "h1 = h[a := Some (?A[?m := Uninit])]"
  have s1: "Vector_end v = Some (Ptr a (int (Suc ?m)))"
    using c n Ptr j by (simp add: Vector_end_def RawMemory_plus_def)
  have s2: "ptr_add (Ptr a (int (Suc ?m))) (- 1) = Ptr a (int ?m)"
    by (rule ptr_add_pred)
  have l: "?m < length ?A" by simp
  have o: "?A ! ?m \<noteq> Uninit" by (simp add: nth_append)
  have s3: "destroy_at (Ptr a (int ?m)) h = Done h1"
    unfolding h1_def by (rule destroy_at_block[OF A l o])
  have res: "PopBack (v, h) = Done (v\<lparr>size' := size' v - 1\<rparr>, h1)"
    by (simp only: PopBack.simps s1 s2 s3 option.case outcome.case)
  have eq: "?A[?m := Uninit] = map Live ys @ replicate (?c - ?m) Uninit"
    using c by (simp add: list_update_append Suc_diff_le flip: replicate_Suc)
  have "represents h1 (v\<lparr>size' := size' v - 1\<rparr>) (butlast xs)"
    using Ptr j a n c eq by (simp add: represents_def h1_def block_at_update xs)
  then show ?thesis using res by simp
qed

lemma Resize_shrink_returns:
  assumes r: "represents h v xs" and k: "0 < k" "k < length xs"
  shows "\<exists>v' h'. Resize T k (v, h) = Done (v', h')"
proof (cases "buffer' (data' v)")
  case Null
  then show ?thesis using represents_Null[OF r] k by simp
next
  case (Ptr a j)
  let ?c = "capacity' (data' v)" and ?n = "length xs"
  let ?A = "map Live xs @ replicate (?c - ?n) Uninit"
  from represents_Ptr[OF r Ptr]
  have j: "j = 0" and n: "size' v = ?n" and c: "?n \<le> ?c" and A: "block_at h a = Some ?A"
    by simp_all
  have s1: "ptr_add (ptr_add (GetAddress (data' v)) (int k)) (- 1) = Ptr a (int (k - 1))"
    using Ptr j ptr_add_minus_one[OF k(1), of a] by (simp add: GetAddress_def)
  have l: "(k - 1) + (?n - k) \<le> length ?A" using k by simp
  have o: "\<forall>i<?n - k. ?A ! ((k - 1) + i) \<noteq> Uninit"
  proof (intro allI impI)
    fix i assume "i < ?n - k"
    then have "(k - 1) + i < ?n" using k by arith
    then show "?A ! ((k - 1) + i) \<noteq> Uninit" by (simp add: nth_append)
  qed
  from destroy_n_block[OF A l o] obtain h1 where
    s2: "destroy_n (Ptr a (int (k - 1))) (?n - k) h = Done h1" by blast
  have "Resize T k (v, h) = Done (v\<lparr>size' := k\<rparr>, h1)"
    using k(2) n by (simp only: Resize.simps s1 s2 outcome.case if_True)
  then show ?thesis by blast
qed

section \<open>Insertion in the middle\<close>

lemma move_construct_same_block:
  assumes "block_at h a = Some A" "i < length A" "j < length A"
    "A ! i = Live x" "\<not> move_throws T x"
  shows "move_construct T (Ptr a (int i)) (Ptr a (int j)) h =
           Done (h[a := Some (A[j := Live x, i := Moved])])"
proof -
  have a: "a < length h" using assms(1) by (rule block_at_Some_less)
  have o: "object_at h (Ptr a (int i)) = Some (Live x)"
    using object_at_block[OF assms(1,2)] assms(4) by simp
  have d: "slot_at h (Ptr a (int j)) = Some (A ! j)"
    using slot_at_block[OF assms(1), of j] assms(3) by simp
  have p1: "put_slot (Ptr a (int j)) (Live x) h = h[a := Some (A[j := Live x])]"
    using assms(1) by (rule put_slot_block)
  have "block_at (h[a := Some (A[j := Live x])]) a = Some (A[j := Live x])"
    using a by (simp add: block_at_update)
  then have p2: "put_slot (Ptr a (int i)) Moved (h[a := Some (A[j := Live x])]) =
      h[a := Some (A[j := Live x, i := Moved])]"
    using put_slot_block[of "h[a := Some (A[j := Live x])]" a "A[j := Live x]" i Moved] by simp
  show ?thesis unfolding move_construct_def o d using assms(5) p1 p2 by simp
qed

lemma move_assign_local_block:
  assumes "block_at h a = Some A" "i < length A" "A ! i \<noteq> Uninit" "\<not> move_throws T x"
  shows "move_assign_local T x (Ptr a (int i)) h = Done (h[a := Some (A[i := Live x])])"
proof -
  have d: "object_at h (Ptr a (int i)) = Some (A ! i)"
    using object_at_block[OF assms(1,2,3)] .
  have p1: "put_slot (Ptr a (int i)) (Live x) h = h[a := Some (A[i := Live x])]"
    using assms(1) by (rule put_slot_block)
  show ?thesis unfolding move_assign_local_def d using assms(4) p1 by simp
qed

lemma move_backward_n_block:
  "block_at h a = Some A \<Longrightarrow> i + n < length A \<Longrightarrow> A ! (i + n) \<noteq> Uninit \<Longrightarrow>
   (\<forall>k<n. \<exists>x. A ! (i + k) = Live x \<and> \<not> move_throws T x) \<Longrightarrow>
   move_backward_n T (Ptr a (int (i + n))) n (Ptr a (int (Suc (i + n)))) h =
     Done (h[a := Some (take i A @ (if n = 0 then A ! i else Moved) # take n (drop i A) @
                        drop (Suc (i + n)) A)])"
proof (induction n arbitrary: A h)
  case 0
  then show ?case by (simp add: id_take_nth_drop[symmetric] heap_update_same)
next
  case (Suc n)
  have a: "a < length h" using Suc.prems(1) by (rule block_at_Some_less)
  have l: "i + n < length A" "i + Suc n < length A" using Suc.prems(2) by simp_all
  obtain x where x: "A ! (i + n) = Live x" "\<not> move_throws T x"
    using Suc.prems(4) by blast
  let ?A1 = "A[i + Suc n := Live x, i + n := Moved]"
  let ?h1 = "h[a := Some ?A1]"
  have m: "move_assign T (Ptr a (int (i + n))) (Ptr a (int (i + Suc n))) h = Done ?h1"
    using Suc.prems(1) l x Suc.prems(3) by (rule move_assign_block)
  have a1: "block_at ?h1 a = Some ?A1" using a by (simp add: block_at_update)
  have l1: "i + n < length ?A1" using l by simp
  have o: "?A1 ! (i + n) \<noteq> Uninit" using l by simp
  have r: "\<forall>k<n. \<exists>x. ?A1 ! (i + k) = Live x \<and> \<not> move_throws T x"
  proof (intro allI impI)
    fix k assume k: "k < n"
    then have "k < Suc n" by simp
    then have "\<exists>x. A ! (i + k) = Live x \<and> \<not> move_throws T x" using Suc.prems(4) by blast
    then show "\<exists>x. ?A1 ! (i + k) = Live x \<and> \<not> move_throws T x" using k by simp
  qed
  let ?R1 = "take i ?A1 @ (if n = 0 then ?A1 ! i else Moved) # take n (drop i ?A1) @
                        drop (Suc (i + n)) ?A1"
  let ?R = "take i A @ (if Suc n = 0 then A ! i else Moved) # take (Suc n) (drop i A) @
                        drop (Suc (i + Suc n)) A"
  have p1: "ptr_add (Ptr a (int (i + Suc n))) (- 1) = Ptr a (int (i + n))"
    using ptr_add_pred[of a "i + n"] by simp
  have p2: "ptr_add (Ptr a (int (Suc (i + Suc n)))) (- 1) = Ptr a (int (i + Suc n))"
    by (rule ptr_add_pred)
  have p3: "Ptr a (int (i + Suc n)) = Ptr a (int (Suc (i + n)))" by simp
  have step: "move_backward_n T (Ptr a (int (i + Suc n))) (Suc n) (Ptr a (int (Suc (i + Suc n)))) h =
      move_backward_n T (Ptr a (int (i + n))) n (Ptr a (int (Suc (i + n)))) ?h1"
    by (simp only: move_backward_n.simps p1 p2 m outcome.case) (simp only: p3)
  have ih: "move_backward_n T (Ptr a (int (i + n))) n (Ptr a (int (Suc (i + n)))) ?h1 =
     Done (?h1[a := Some ?R1])"
    by (rule Suc.IH[OF a1 l1 o r])
  have t1: "take i ?A1 = take i A" by simp
  have t2: "take n (drop i ?A1) = take n (drop i A)" by (simp add: drop_update_swap)
  have t3: "drop (Suc (i + n)) ?A1 = Live x # drop (Suc (i + Suc n)) A"
    using l by (simp add: drop_update_swap Cons_nth_drop_Suc[symmetric] flip: add_Suc_right)
  have t4: "(if n = 0 then ?A1 ! i else Moved) = Moved" using l by (cases n) simp_all
  have t5: "take (Suc n) (drop i A) = take n (drop i A) @ [Live x]"
    using l x by (simp add: take_Suc_conv_app_nth)
  have eq: "?R1 = ?R" unfolding t1 t2 t3 t4 t5 by simp
  show ?case by (simp only: step ih eq list_update_overwrite)
qed

lemma update_after_middle:
  "length P = i \<Longrightarrow> length Q = m \<Longrightarrow>
     (P @ Q @ y # z # S)[Suc (i + m) := u] = P @ Q @ y # u # S"
  by (simp add: list_update_append)

lemma update_at_split:
  "length P = i \<Longrightarrow> (P @ y # S)[i := u] = P @ u # S"
  by (simp add: list_update_append)

lemma nth_at_split: "length P = i \<Longrightarrow> (P @ y # S) ! i = y"
  by (simp add: nth_append)

lemma Emplace_in_place:
  assumes r: "represents h v xs" and i: "i < length xs"
    and room: "length xs < capacity' (data' v)"
    and t: "list_all (\<lambda>y. \<not> move_throws T y) (x # xs)"
  shows "\<exists>v' h'. Emplace T (ptr_add (Vector_begin v) (int i)) (Some x) (v, h) =
             Done (ptr_add (Vector_begin v') (int i), v', h') \<and>
           represents h' v' (take i xs @ x # drop i xs)"
proof (cases "buffer' (data' v)")
  case Null
  then show ?thesis using represents_Null[OF r] i by simp
next
  case (Ptr a j)
  let ?c = "capacity' (data' v)" and ?n = "length xs"
  from represents_Ptr[OF r Ptr]
  have j: "j = 0" and n: "size' v = ?n" and c: "?n \<le> ?c"
    and A: "block_at h a = Some (map Live xs @ replicate (?c - ?n) Uninit)"
    by simp_all
  have a: "a < length h" using A by (rule block_at_Some_less)
  have beg: "Vector_begin v = Ptr a 0" using Ptr j by (simp add: Vector_begin_def GetAddress_def)
  define m where "m = ?n - Suc i"
  define ps where "ps = take i xs"
  define qs where "qs = take m (drop i xs)"
  define y where "y = xs ! (i + m)"
  define S where "S = replicate (?c - Suc ?n) (Uninit :: 'a slot)"
  define P where "P = map Live ps"
  define Q where "Q = map Live qs"
  have nm: "?n = Suc (i + m)" using i by (simp add: m_def)
  have lP: "length P = i" using i by (simp add: P_def ps_def)
  have lQ: "length Q = m" using i by (simp add: Q_def qs_def m_def)
  have dr: "drop i xs = qs @ [y]"
    unfolding qs_def y_def using i nm
    by (metis (no_types, lifting) Cons_nth_drop_Suc append_take_drop_id
          drop_all drop_drop lessI add.commute less_or_eq_imp_le)
  have xs: "xs = ps @ qs @ [y]"
    using append_take_drop_id[of i xs] by (simp only: dr ps_def)
  have tail: "replicate (?c - ?n) Uninit = Uninit # S"
    using room by (cases "?c - ?n") (simp_all add: S_def)
  have A0: "block_at h a = Some (P @ Q @ Live y # Uninit # S)"
    using A tail by (subst (asm) (1) xs) (simp add: P_def Q_def)
  define A1 where "A1 = P @ Q @ Moved # Live y # S"
  define A2 where "A2 = P @ Moved # Q @ Live y # S"
  define A3 where "A3 = P @ Live x # Q @ Live y # S"
  define h1 where "h1 = h[a := Some A1]"
  define h2 where "h2 = h1[a := Some A2]"
  define h3 where "h3 = h2[a := Some A3]"
  have len0: "i + m < length (P @ Q @ Live y # Uninit # S)"
    "?n < length (P @ Q @ Live y # Uninit # S)" using lP lQ nm by simp_all
  have y0: "(P @ Q @ Live y # Uninit # S) ! (i + m) = Live y" by (rule nth_middle[OF lP lQ])
  have tx: "\<not> move_throws T x" and txs: "list_all (\<lambda>y. \<not> move_throws T y) xs"
    using t by simp_all
  have ty: "\<not> move_throws T y" using txs nm by (simp add: y_def list_all_length)
  have s0: "ptr_add (Vector_begin v) (int i) = Ptr a (int i)" by (simp add: beg)
  have s1: "ptr_diff (Ptr a (int i)) (Vector_begin v) = Some (int i)" by (simp add: beg)
  have s2: "Vector_end v = Some (Ptr a (int ?n))"
    using c n Ptr j by (simp add: Vector_end_def RawMemory_plus_def)
  have c1: "(Ptr a (int i) = Ptr a (int ?n)) = False" using i by simp
  have c2: "(size' v = Capacity v) = False"
    using room n by (simp add: Capacity_def RawMemory_Capacity_def)
  have s3: "RawMemory_index (data' v) (size' v) = Some (Ptr a (int ?n))"
    using room n Ptr j by (simp add: RawMemory_index_def)
  have e1: "ptr_add (Ptr a (int ?n)) (- 1) = Ptr a (int (i + m))"
    by (simp only: nm ptr_add_pred)
  have u1: "(P @ Q @ Live y # Uninit # S)[?n := Live y, i + m := Moved] = A1"
    unfolding nm update_after_middle[OF lP lQ] update_middle[OF lP lQ] A1_def ..
  have s4: "move_construct T (Ptr a (int (i + m))) (Ptr a (int ?n)) h = Done h1"
    using move_construct_same_block[OF A0 len0 y0 ty] by (simp only: u1 h1_def)
  have B1: "block_at h1 a = Some A1" using a by (simp add: h1_def block_at_update)
  have d1: "ptr_diff (Ptr a (int (i + m))) (Ptr a (int i)) = Some (int m)" by simp
  have l1: "i + m < length A1" using lP lQ by (simp add: A1_def)
  have o1: "A1 ! (i + m) \<noteq> Uninit" unfolding A1_def nth_middle[OF lP lQ] by simp
  have live: "\<forall>k<m. \<exists>z. A1 ! (i + k) = Live z \<and> \<not> move_throws T z"
  proof (intro allI impI)
    fix k assume k: "k < m"
    then have "A1 ! (i + k) = Live (qs ! k)"
      using lP lQ by (simp add: A1_def nth_append Q_def)
    moreover have "qs ! k = xs ! (i + k)" using k i by (simp add: qs_def m_def)
    moreover have "\<not> move_throws T (xs ! (i + k))"
      using txs k nm by (simp add: list_all_length)
    ultimately show "\<exists>z. A1 ! (i + k) = Live z \<and> \<not> move_throws T z" by simp
  qed
  have u2: "take i A1 @ (if m = 0 then A1 ! i else Moved) # take m (drop i A1) @
              drop (Suc (i + m)) A1 = A2"
  proof -
    have "take i A1 = P" using lP by (simp add: A1_def)
    moreover have "take m (drop i A1) = Q" using lP lQ by (simp add: A1_def)
    moreover have "drop (Suc (i + m)) A1 = Live y # S" using lP lQ by (simp add: A1_def)
    moreover have "(if m = 0 then A1 ! i else Moved) = Moved"
      using lP lQ by (cases m) (simp_all add: A1_def nth_append)
    ultimately show ?thesis by (simp add: A2_def)
  qed
  have mb: "move_backward_n T (Ptr a (int (i + m))) m (Ptr a (int (Suc (i + m)))) h1 = Done h2"
    using move_backward_n_block[OF B1 l1 o1 live] by (simp only: u2 h2_def)
  have "move_backward T (Ptr a (int i)) (Ptr a (int (i + m))) (Ptr a (int ?n)) h1 =
      move_backward_n T (Ptr a (int (i + m))) (nat (int m)) (Ptr a (int ?n)) h1"
    unfolding move_backward_def d1 by simp
  then have s5: "move_backward T (Ptr a (int i)) (Ptr a (int (i + m))) (Ptr a (int ?n)) h1 = Done h2"
    by (simp only: nat_int nm mb)
  have c3: "(int i < 0) = False" "nat (int i) = i" by simp_all
  have s6: "RawMemory_index (data' v) i = Some (Ptr a (int i))"
    using room i Ptr j by (simp add: RawMemory_index_def)
  have B2: "block_at h2 a = Some A2" using a by (simp add: h2_def h1_def block_at_update)
  have l2: "i < length A2" using lP by (simp add: A2_def)
  have o2: "A2 ! i \<noteq> Uninit" unfolding A2_def nth_at_split[OF lP] by simp
  have u3: "A2[i := Live x] = A3" unfolding A2_def A3_def by (rule update_at_split[OF lP])
  have s7: "move_assign_local T x (Ptr a (int i)) h2 = Done h3"
    using move_assign_local_block[OF B2 l2 o2 tx] by (simp only: u3 h3_def)
  have res: "Emplace T (ptr_add (Vector_begin v) (int i)) (Some x) (v, h) =
      Done (Ptr a (int i), v\<lparr>size' := size' v + 1\<rparr>, h3)"
    by (simp only: Emplace.simps s0 s1 s2 c1 c2 s3 e1 s4 s5 c3 s6 s7 Let_def option.case
        outcome.case if_False)
  have ins: "take i xs @ x # drop i xs = ps @ x # qs @ [y]"
    by (simp only: dr ps_def)
  have "represents h3 (v\<lparr>size' := size' v + 1\<rparr>) (take i xs @ x # drop i xs)"
    unfolding ins using Ptr j a n room nm
    by (simp add: represents_def h3_def h2_def h1_def block_at_update A3_def P_def Q_def S_def xs)
  then show ?thesis using res beg by (simp add: Vector_begin_def GetAddress_def)
qed

lemma length_relocated_from:
  "i + n \<le> length A \<Longrightarrow> length (relocated_from T A i n) = length A"
  by (simp add: relocated_from_def)

lemma take_relocated_from:
  "i + n \<le> length A \<Longrightarrow> take i (relocated_from T A i n) = take i A"
  by (simp add: relocated_from_def)

lemma drop_relocated_from:
  "i + n \<le> length A \<Longrightarrow> drop (i + n) (relocated_from T A i n) = drop (i + n) A"
  by (simp add: relocated_from_def)

lemma relocated_from_not_Uninit:
  "i + n \<le> length A \<Longrightarrow> j < length A \<Longrightarrow> A ! j \<noteq> Uninit \<Longrightarrow>
     relocated_from T A i n ! j \<noteq> Uninit"
  by (auto simp: relocated_from_def nth_append)

lemma relocated_from_nth_after:
  "i + n \<le> length A \<Longrightarrow> i + n \<le> j \<Longrightarrow> relocated_from T A i n ! j = A ! j"
  by (auto simp: relocated_from_def nth_append)

lemma Emplace_realloc:
  assumes r: "represents h v xs" and i: "i < length xs"
    and full: "length xs = capacity' (data' v)"
    and t: "relocates T xs"
    and g: "served T (max 1 (2 * length xs))"
  shows "\<exists>v' h'. Emplace T (ptr_add (Vector_begin v) (int i)) (Some x) (v, h) =
             Done (ptr_add (Vector_begin v') (int i), v', h') \<and>
           represents h' v' (take i xs @ x # drop i xs)"
proof (cases "buffer' (data' v)")
  case Null
  then show ?thesis using represents_Null[OF r] i by simp
next
  case (Ptr a j)
  let ?n = "length xs" and ?b = "length h"
  from represents_Ptr[OF r Ptr] full
  have j: "j = 0" and n: "size' v = ?n" and A0: "block_at h a = Some (map Live xs)"
    by simp_all
  have a: "a < ?b" using A0 by (rule block_at_Some_less)
  have ab: "a \<noteq> ?b" using a by simp
  have beg: "Vector_begin v = Ptr a 0" using Ptr j by (simp add: Vector_begin_def GetAddress_def)
  define k where "k = ?n * 2"
  define P where "P = map Live (take i xs)"
  define Q where "Q = map Live (drop i xs)"
  define A where "A = map Live xs"
  define nd where "nd = \<lparr>buffer' = Ptr ?b 0, capacity' = k\<rparr>"
  define h1 where "h1 = h @ [Some (replicate k (Uninit :: 'a slot))]"
  define B1 where "B1 = replicate i Uninit @ Live x # replicate (k - Suc i) Uninit"
  define h2 where "h2 = h1[?b := Some B1]"
  define B3 where "B3 = P @ Live x # replicate (k - Suc i) Uninit"
  define A3 where "A3 = relocated_from T A 0 i"
  define h3 where "h3 = h2[?b := Some B3, a := Some A3]"
  define B4 where "B4 = P @ Live x # Q @ replicate (k - Suc ?n) Uninit"
  define A4 where "A4 = relocated_from T A3 i (?n - i)"
  define h4 where "h4 = h3[?b := Some B4, a := Some A4]"
  define h5 where "h5 = h4[a := Some (replicate ?n Uninit @ drop ?n A4)]"
  have lP: "length P = i" using i by (simp add: P_def)
  have lQ: "length Q = ?n - i" by (simp add: Q_def)
  have lA: "length A = ?n" by (simp add: A_def)
  have PQ: "A = P @ Q" by (simp add: A_def P_def Q_def flip: map_append)
  have ik: "i < k" "?n < k" "0 < k" unfolding k_def using i by linarith+
  have b1: "?b < length h1" and a1: "a < length h1" using a by (simp_all add: h1_def)
  have Ablk: "block_at h a = Some A" using A0 by (simp add: A_def)
  have live0: "\<forall>q<?n. \<exists>z. A ! q = Live z \<and> \<not> relocation_throws T z"
    using t live_prefix[of "\<lambda>x. \<not> relocation_throws T x" xs "[]"]
    by (simp add: relocates_def A_def)
  have s0: "ptr_add (Vector_begin v) (int i) = Ptr a (int i)" by (simp add: beg)
  have s1: "ptr_diff (Ptr a (int i)) (Vector_begin v) = Some (int i)" by (simp add: beg)
  have s2: "Vector_end v = Some (Ptr a (int ?n))"
    using full n Ptr j by (simp add: Vector_end_def RawMemory_plus_def)
  have c1: "(Ptr a (int i) = Ptr a (int ?n)) = False" using i by simp
  have c2: "(size' v = Capacity v) = True"
    using full n by (simp add: Capacity_def RawMemory_Capacity_def)
  have sz: "(?n = 0) = False" using i by (cases xs) simp_all
  have sv: "served T (?n * 2)" using g growth_capacity[of ?n] sz by simp
  have s3: "RawMemory_ctor T (if size' v = 0 then 1 else size' v * 2) h = Some (nd, h1)"
    unfolding n sz if_False nd_def h1_def k_def
    by (rule RawMemory_ctor_pos[OF ik(3)[unfolded k_def] sv])
  have c3: "(int i < 0) = False" "nat (int i) = i" by simp_all
  have s4: "RawMemory_index nd i = Some (Ptr ?b (int i))"
    using ik by (simp add: RawMemory_index_def nd_def)
  have Bblk: "block_at h1 ?b = Some (replicate k Uninit)" by (simp add: h1_def block_at_append)
  have s5: "construct_at (Ptr ?b (int i)) (Some x) h1 = Done h2"
    using construct_at_block[OF Bblk, of i x] ik replicate_update[OF ik(1), of Uninit "Live x"]
    by (simp add: h2_def B1_def)
  have A2: "block_at h2 a = Some A"
    using Ablk a by (simp add: h2_def h1_def block_at_append block_at_update)
  have B2: "block_at h2 ?b = Some B1" using b1 by (simp add: h2_def block_at_update)
  have live1: "\<forall>q<i. \<exists>z. A ! (0 + q) = Live z \<and> \<not> relocation_throws T z"
    using live0 i by simp
  have u1: "take 0 B1 @ take i (drop 0 A) @ drop (0 + i) B1 = B3"
    using lP by (simp add: B1_def B3_def PQ)
  have rel1: "(if is_nothrow_move_constructible T \<or> \<not> is_copy_constructible T
          then uninitialized_move_n T (Ptr a (int 0)) i (Ptr ?b (int 0)) h2
          else uninitialized_copy_n T (Ptr a (int 0)) i (Ptr ?b (int 0)) h2) = Done h3"
    unfolding h3_def A3_def u1[symmetric]
    by (rule relocate_block[OF A2 B2 ab _ _ live1]) (use i ik in \<open>simp_all add: lA B1_def\<close>)
  have A3blk: "block_at h3 a = Some A3" using a1 by (simp add: h3_def h2_def block_at_update)
  have B3blk: "block_at h3 ?b = Some B3"
    using b1 ab by (simp add: h3_def h2_def block_at_update)
  have lA3: "length A3 = ?n" using i by (simp add: A3_def length_relocated_from lA)
  have live2: "\<forall>q<?n - i. \<exists>z. A3 ! (i + q) = Live z \<and> \<not> relocation_throws T z"
  proof (intro allI impI)
    fix q assume "q < ?n - i"
    then have "i + q < ?n" by simp
    then have "\<exists>z. A ! (i + q) = Live z \<and> \<not> relocation_throws T z" using live0 by blast
    moreover have "A3 ! (i + q) = A ! (i + q)"
      unfolding A3_def using i by (intro relocated_from_nth_after) (simp_all add: lA)
    ultimately show "\<exists>z. A3 ! (i + q) = Live z \<and> \<not> relocation_throws T z" by simp
  qed
  have dA3: "drop i A3 = Q"
    using drop_relocated_from[of 0 i A T] i lP by (simp add: A3_def lA PQ)
  have u2: "take (Suc i) B3 @ take (?n - i) (drop i A3) @ drop (Suc i + (?n - i)) B3 = B4"
    unfolding dA3 using lP lQ i by (simp add: B3_def B4_def Suc_diff_le)
  have rel2: "(if is_nothrow_move_constructible T \<or> \<not> is_copy_constructible T
          then uninitialized_move_n T (Ptr a (int i)) (?n - i) (Ptr ?b (int (Suc i))) h3
          else uninitialized_copy_n T (Ptr a (int i)) (?n - i) (Ptr ?b (int (Suc i))) h3) = Done h4"
    unfolding h4_def A4_def u2[symmetric]
    by (rule relocate_block[OF A3blk B3blk ab _ _ live2])
      (use i ik lP in \<open>simp_all add: lA3 B3_def k_def\<close>)
  have A4blk: "block_at h4 a = Some A4"
    using a1 by (simp add: h4_def h3_def h2_def block_at_update)
  have lA4: "length A4 = ?n" using i by (simp add: A4_def length_relocated_from lA3)
  have A4live: "\<forall>q<?n. A4 ! (0 + q) \<noteq> Uninit"
  proof (intro allI impI)
    fix q assume q: "q < ?n"
    then have "A ! q \<noteq> Uninit" using live0 by auto
    then have "A3 ! q \<noteq> Uninit"
      unfolding A3_def using i q by (intro relocated_from_not_Uninit) (simp_all add: lA)
    then have "A4 ! q \<noteq> Uninit"
      unfolding A4_def using i q by (intro relocated_from_not_Uninit) (simp_all add: lA3)
    then show "A4 ! (0 + q) \<noteq> Uninit" by simp
  qed
  have s8: "destroy_n (Ptr a (int 0)) ?n h4 = Done h5"
    using destroy_n_block[OF A4blk _ A4live] lA4 by (simp add: h5_def)
  have s9: "RawMemory_Swap (data' v) nd = (nd, data' v)"
    by (simp add: RawMemory_Swap_def nd_def)
  have s10: "RawMemory_dtor (data' v) h5 = Some (h5[a := None])"
    using Ptr j a1 by (simp add: RawMemory_dtor_def Deallocate_def operator_delete_def
          h5_def h4_def h3_def h2_def block_at_update)
  have g: "(size' v < i) = False" using i n by simp
  have s6: "RawMemory_plus nd i = Some (Ptr ?b (int i))"
    using ik by (simp add: RawMemory_plus_def nd_def)
  have ga: "GetAddress nd = Ptr ?b (int 0)" "GetAddress (data' v) = Ptr a (int 0)"
    "Vector_begin v = Ptr a (int 0)"
    using Ptr j by (simp_all add: GetAddress_def nd_def Vector_begin_def)
  have s8': "destroy_n (GetAddress (data' v)) (size' v) h4 = Done h5"
    using s8 by (simp only: ga n)
  have res: "Emplace T (ptr_add (Vector_begin v) (int i)) (Some x) (v, h) =
      Done (Ptr ?b (int i), v\<lparr>data' := nd, size' := size' v + 1\<rparr>, h5[a := None])"
  proof (cases "is_nothrow_move_constructible T \<or> \<not> is_copy_constructible T")
    case True
    have m1: "uninitialized_move_n T (Vector_begin v) i (GetAddress nd) h2 = Done h3"
      using rel1 True by (simp only: if_True ga)
    have m2: "uninitialized_move_n T (Ptr a (int i)) (size' v - i) (Ptr ?b (int (Suc i))) h3 =
        Done h4"
      using rel2 True by (simp only: if_True n)
    show ?thesis
      by (simp only: Emplace.simps s0 s1 s2 c1 c2 s3 c3 s4 s5 Eq_TrueI[OF True] m1 g s6
          ptr_add_Suc m2 s8' s9 s10 Let_def option.case outcome.case prod.case if_False if_True)
  next
    case False
    have m1: "uninitialized_copy_n T (Vector_begin v) i (GetAddress nd) h2 = Done h3"
      using rel1 False by (simp only: if_False ga)
    have m2: "uninitialized_copy_n T (Ptr a (int i)) (size' v - i) (Ptr ?b (int (Suc i))) h3 =
        Done h4"
      using rel2 False by (simp only: if_False n)
    show ?thesis
      by (simp only: Emplace.simps s0 s1 s2 c1 c2 s3 c3 s4 s5 Eq_FalseI[OF False] m1 g s6
          ptr_add_Suc m2 s8' s9 s10 Let_def option.case outcome.case prod.case if_False if_True)
  qed
  have "represents (h5[a := None]) (v\<lparr>data' := nd, size' := size' v + 1\<rparr>)
          (take i xs @ x # drop i xs)"
    using ab a a1 b1 ik n i
    by (simp add: represents_def nd_def h5_def h4_def h3_def h2_def B4_def P_def Q_def
        block_at_update)
  then show ?thesis using res by (simp add: Vector_begin_def GetAddress_def nd_def)
qed

lemma ptr_add_Suc_pred: "ptr_add (ptr_add q (int (Suc n))) (- 1) = ptr_add q (int n)"
  by (cases q) (simp_all add: ptr_add.simps(2))

lemma represents_end:
  "represents h v xs \<Longrightarrow> Vector_end v = Some (ptr_add (Vector_begin v) (int (length xs)))"
  by (simp add: represents_def Vector_end_def RawMemory_plus_def Vector_begin_def GetAddress_def)

lemma represents_diff:
  assumes "represents h v xs" "i \<le> length xs"
  shows "ptr_diff (ptr_add (Vector_begin v) (int i)) (Vector_begin v) = Some (int i)"
proof (cases "buffer' (data' v)")
  case Null
  then show ?thesis using represents_Null[OF assms(1)] assms(2)
    by (simp add: Vector_begin_def GetAddress_def)
next
  case (Ptr a j)
  then show ?thesis using represents_Ptr[OF assms(1) Ptr]
    by (simp add: Vector_begin_def GetAddress_def)
qed

lemma Emplace_at_end:
  assumes r: "represents h v xs" and t: "relocates T xs"
    and g: "served T (max 1 (2 * length xs))"
  shows "\<exists>v' h'. Emplace T (ptr_add (Vector_begin v) (int (length xs))) (Some x) (v, h) =
             Done (ptr_add (Vector_begin v') (int (length xs)), v', h') \<and>
           represents h' v' (xs @ [x])"
proof -
  from EmplaceBack_appends[OF r t g, of x] obtain p v' h' where
    e: "EmplaceBack T (Some x) (v, h) = Done (p, v', h')" and r': "represents h' v' (xs @ [x])"
    by blast
  have s1: "ptr_diff (ptr_add (Vector_begin v) (int (length xs))) (Vector_begin v) =
      Some (int (length xs))"
    using r by (rule represents_diff) simp
  have s2: "Vector_end v = Some (ptr_add (Vector_begin v) (int (length xs)))"
    using r by (rule represents_end)
  have s3: "Vector_end v' = Some (ptr_add (Vector_begin v') (int (Suc (length xs))))"
    using represents_end[OF r'] by simp
  have "Emplace T (ptr_add (Vector_begin v) (int (length xs))) (Some x) (v, h) =
      Done (ptr_add (Vector_begin v') (int (length xs)), v', h')"
    by (simp only: Emplace.simps s1 s2 e s3 ptr_add_Suc_pred option.case outcome.case prod.case
        if_True refl)
  then show ?thesis using r' by blast
qed

lemma Emplace_inserts:
  assumes r: "represents h v xs" and i: "i \<le> length xs" and t: "relocates T xs"
    and m: "list_all (\<lambda>y. \<not> move_throws T y) (x # xs)"
    and g: "served T (max 1 (2 * length xs))"
  shows "\<exists>v' h'. Emplace T (ptr_add (Vector_begin v) (int i)) (Some x) (v, h) =
             Done (ptr_add (Vector_begin v') (int i), v', h') \<and>
           represents h' v' (take i xs @ x # drop i xs)"
proof (cases "i = length xs")
  case True
  then show ?thesis using Emplace_at_end[OF r t g, of x] by simp
next
  case False
  then have lt: "i < length xs" using i by simp
  show ?thesis
  proof (cases "length xs = capacity' (data' v)")
    case True
    then show ?thesis using Emplace_realloc[OF r lt True t g] by simp
  next
    case False
    then have "length xs < capacity' (data' v)" using r by (simp add: represents_def)
    then show ?thesis using Emplace_in_place[OF r lt _ m] by simp
  qed
qed

lemma nothrow_relocates: "nothrow T xs \<Longrightarrow> relocates T xs"
  by (induction xs) (simp_all add: nothrow_def relocates_def relocation_throws_def)

lemma nothrow_moves: "nothrow T xs \<Longrightarrow> list_all (\<lambda>y. \<not> move_throws T y) xs"
  by (induction xs) (simp_all add: nothrow_def)

lemma Insert_inserts:
  assumes r: "represents h v xs" and i: "i \<le> length xs" and t: "nothrow T (x # xs)"
    and g: "served T (max 1 (2 * length xs))"
  shows "\<exists>v' h'. Insert T (ptr_add (Vector_begin v) (int i)) x (v, h) =
             Done (ptr_add (Vector_begin v') (int i), v', h') \<and>
           represents h' v' (take i xs @ x # drop i xs)"
proof -
  have c: "\<not> copy_throws T x" and n: "nothrow T xs" using t by (simp_all add: nothrow_def)
  have "Insert T (ptr_add (Vector_begin v) (int i)) x (v, h) =
      Emplace T (ptr_add (Vector_begin v) (int i)) (Some x) (v, h)"
    using c by (simp add: Insert.simps)
  then show ?thesis
    using Emplace_inserts[OF r i nothrow_relocates[OF n] nothrow_moves[OF t] g] by simp
qed

section \<open>Claims settled by evaluation\<close>

text \<open>
  C1. The specification says that \<^verbatim>\<open>Resize(newSize)\<close> with \<^verbatim>\<open>newSize < size\<close> destroys exactly
  the elements at positions \<^verbatim>\<open>[newSize, size)\<close> and keeps those at \<^verbatim>\<open>[0, newSize)\<close>. The code
  starts the range one slot early: on the vector 1, 2, 3, \<^verbatim>\<open>Resize(1)\<close> destroys the elements
  at positions 0 and 1, keeps the object at position 2 alive beyond the new size, and
  \<^verbatim>\<open>Resize(0)\<close> starts destroying one slot before the block, which is undefined.
\<close>

theorem Resize_shrink_destroys_shifted_range:
  "Resize noexcept_traits 1 (vec123, heap123) =
     Done (vec123\<lparr>size' := 1\<rparr>, [Some [Uninit, Uninit, Live 3], Some [Live 7]]) \<and>
   Resize noexcept_traits 0 (vec123, heap123) = Undefined"
  by (simp add: Resize.simps vec123_def heap123_def GetAddress_def ptr_add.simps(2)
      destroy_at_def object_at_def block_at_def numeral_2_eq_2 numeral_3_eq_3)

text \<open>
  C2. The specification says that moving a \<^verbatim>\<open>RawMemory\<close> leaves the source empty. In the code
  the source keeps its pointer and its capacity after move-construction and after
  move-assignment, so two objects own the block: destroying both releases it twice.
\<close>

theorem RawMemory_move_leaves_source_owning:
  "RawMemory_move_ctor \<lparr>buffer' = Ptr 0 0, capacity' = 3\<rparr> =
     (\<lparr>buffer' = Ptr 0 0, capacity' = 3\<rparr>, \<lparr>buffer' = Ptr 0 0, capacity' = 3\<rparr>) \<and>
   RawMemory_move_assign RawMemory_default \<lparr>buffer' = Ptr 0 0, capacity' = 3\<rparr> =
     (\<lparr>buffer' = Ptr 0 0, capacity' = 3\<rparr>, \<lparr>buffer' = Ptr 0 0, capacity' = 3\<rparr>) \<and>
   (case RawMemory_move_ctor \<lparr>buffer' = Ptr 0 0, capacity' = 3\<rparr> of
      (this, other) \<Rightarrow>
        (case RawMemory_dtor this heap123 of
           None \<Rightarrow> None
         | Some h1 \<Rightarrow> RawMemory_dtor other h1)) = None"
  by code_simp

text \<open>
  C3. The specification says that copy-assignment from a smaller source into a target with
  enough capacity destroys exactly the surplus \<^verbatim>\<open>[sourceSize, oldSize)\<close> and leaves the target
  equal to the source. The code starts the destroyed range one slot early: assigning the
  vector 7 to the vector 1, 2, 3 writes 7 to position 0 and then destroys positions 0 and
  1, so the target of size 1 holds no object at position 0 while 3 stays alive; assigning
  an empty vector starts destroying one slot before the block, which is undefined.
\<close>

theorem copy_assign_shrink_destroys_shifted_range:
  "operator_assign noexcept_traits 0 1 machine123 =
     Done (machine123\<lparr>objs := (objs machine123)(0 := vec123\<lparr>size' := 1\<rparr>),
                      mem := [Some [Uninit, Uninit, Live 3], Some [Live 7]]\<rparr>) \<and>
   operator_assign noexcept_traits 0 2 machine123 = Undefined"
  by (simp add: operator_assign_def machine123_def vec123_def vec7_def heap123_def
      noexcept_traits_def Vector_default_def RawMemory_default_def RawMemory_Capacity_def
      GetAddress_def Vector_index_def copy_assign_def object_at_def block_at_def
      destroy_at_def ptr_add.simps(2) numeral_2_eq_2 numeral_3_eq_3)

section \<open>Claims about assignment between objects\<close>

text \<open>
  C8. After the move-assignment \<^verbatim>\<open>a = std::move(b)\<close>, \<open>a\<close> holds what \<open>b\<close> held (buffer,
  capacity and size) and \<open>b\<close> holds what \<open>a\<close> held: the two are swapped, the source is not
  emptied, and the free store is not touched.
\<close>

theorem move_assign_swaps:
  "objs (operator_move_assign a b s) a = objs s b \<and>
   objs (operator_move_assign a b s) b = objs s a \<and>
   mem (operator_move_assign a b s) = mem s"
  by (simp add: operator_move_assign_def Swap_objs_def Swap_def RawMemory_Swap_def)

text \<open>
  C10. Copy-assigning a vector to itself returns normally and changes nothing: neither the
  object (size, capacity, buffer) nor any block of the free store, hence no element.
\<close>

theorem self_assign_identity:
  "operator_assign T a a s = Done s"
  by (simp add: operator_assign_def)

section \<open>Strong exception safety of appending\<close>

text \<open>
  C4. When an append has to grow (\<^verbatim>\<open>size == capacity\<close>) and the construction of the new
  element throws, the exception leaves the vector object as it was (same buffer, capacity
  and size) and every block of the free store as it was, so every element is untouched.
  This covers \<^verbatim>\<open>EmplaceBack\<close> with a throwing constructor and both \<^verbatim>\<open>PushBack\<close> overloads
  with a throwing copy or move of the value. It holds as well when the allocation of the
  new buffer throws before the element is constructed. The doubled capacity has to fit
  \<^verbatim>\<open>size_t\<close> when it is counted in bytes, as it does for every vector whose elements take
  at most \<^verbatim>\<open>PTRDIFF_MAX\<close> bytes (lemma \<open>doubling_fits\<close>).
\<close>

theorem append_throw_keeps_state:
  assumes "size' v = Capacity v" and "fits_size_t T (max 1 (2 * size' v))"
  shows "\<exists>h'. (\<forall>a. block_at h' a = block_at h a) \<and>
           EmplaceBack T None (v, h) = Thrown (v, h') \<and>
           (copy_throws T x \<longrightarrow> PushBack T x (v, h) = Thrown (v, h')) \<and>
           (move_throws T x \<longrightarrow> PushBack_rvalue T x (v, h) = Thrown (v, h'))"
proof -
  define k where "k = (if size' v = 0 then 1 else size' v * 2)"
  have k: "0 < k" "size' v < k" by (simp_all add: k_def)
  have f: "fits_size_t T k" unfolding k_def growth_capacity by (rule assms(2))
  show ?thesis
  proof (cases "max_request T < k * sizeof_T T")
    case True
    have "RawMemory_ctor T k h = None" using k(1) f True by (rule RawMemory_ctor_refused)
    then show ?thesis using assms(1)
      by (auto simp: EmplaceBack.simps PushBack.simps PushBack_rvalue.simps k_def)
  next
    case False
    then have "served T k" using f by (simp add: served_def)
    then have "RawMemory_ctor T k h =
        Some (\<lparr>buffer' = Ptr (length h) 0, capacity' = k\<rparr>, h @ [Some (replicate k Uninit)])"
      using k(1) RawMemory_ctor_pos by blast
    then show ?thesis using assms(1) k(2)
      by (auto simp: EmplaceBack.simps PushBack.simps PushBack_rvalue.simps k_def
          RawMemory_index_def construct_at_def block_at_def nth_append RawMemory_dtor_def
          Deallocate_def operator_delete_def ptr_add.simps(2))
  qed
qed

theorem append_throw_keeps_state_witness:
  "size' vec123 = Capacity vec123 \<and> fits_size_t throwing_traits (max 1 (2 * size' vec123)) \<and>
   copy_throws throwing_traits (- 1) \<and> move_throws throwing_traits (- 1) \<and>
   (\<exists>h'. (\<forall>a. block_at h' a = block_at heap123 a) \<and>
      EmplaceBack throwing_traits None (vec123, heap123) = Thrown (vec123, h') \<and>
      PushBack throwing_traits (- 1) (vec123, heap123) = Thrown (vec123, h') \<and>
      PushBack_rvalue throwing_traits (- 1) (vec123, heap123) = Thrown (vec123, h'))"
proof -
  have c: "size' vec123 = Capacity vec123"
    by (simp add: vec123_def Capacity_def RawMemory_Capacity_def)
  have f: "fits_size_t throwing_traits (max 1 (2 * size' vec123))"
    by (simp add: fits_size_t_def throwing_traits_def vec123_def SIZE_MAX_def)
  have t: "copy_throws throwing_traits (- 1)" "move_throws throwing_traits (- 1)"
    by (simp_all add: throwing_traits_def)
  from append_throw_keeps_state [OF c f, of heap123 "- 1"] t c f
  show ?thesis by blast
qed

section \<open>Reserve and the growth policy\<close>




text \<open>
  C5. Start from a default-constructed vector and append the elements of \<open>xs\<close> one by one,
  then one more element \<open>x\<close> (no copy of an appended value and no relocation throws, and
  \<^verbatim>\<open>operator new\<close> serves the largest buffer of the run, which has twice the final size).
  After the \<open>N\<close> appends the size is \<open>N\<close> and the capacity is at least the size; the next
  append returns normally with size \<open>N + 1\<close>, capacity at least the size, and a capacity
  of \<^verbatim>\<open>max(1, 2 * capacity)\<close> when it found the capacity exhausted, the old capacity
  otherwise. Since \<open>xs\<close> is arbitrary this holds after every append of a run.
\<close>

theorem appends_size_and_capacity:
  assumes "list_all (\<lambda>y. \<not> copy_throws T y) (xs @ [x])" and "relocates T xs"
    and "served T (max 1 (2 * length xs))"
  shows "\<exists>v h v' h'.
           PushBack_all T xs (Vector_default, h0) = Done (v, h) \<and>
           Size v = length xs \<and> Size v \<le> Capacity v \<and>
           PushBack T x (v, h) = Done (v', h') \<and>
           Size v' = length xs + 1 \<and> Size v' \<le> Capacity v' \<and>
           Capacity v' = (if Size v = Capacity v then max 1 (2 * Capacity v) else Capacity v)"
proof -
  have "represents h0 Vector_default []" by (rule represents_default)
  from PushBack_all_appends[OF this, of T xs] assms
  obtain v h where a: "PushBack_all T xs (Vector_default, h0) = Done (v, h)" "represents h v xs"
    by auto
  from PushBack_appends[OF a(2) assms(2) _ assms(3), of x] assms(1)
  obtain v' h' where b: "PushBack T x (v, h) = Done (v', h')" "represents h' v' (xs @ [x])"
    "Capacity v' = (if size' v = Capacity v then max 1 (2 * Capacity v) else Capacity v)"
    by auto
  have "Size v = length xs \<and> Size v \<le> Capacity v"
    using a(2) by (simp add: represents_def Size_def Capacity_def RawMemory_Capacity_def)
  moreover have "Size v' = length xs + 1 \<and> Size v' \<le> Capacity v'"
    using b(2) by (simp add: represents_def Size_def Capacity_def RawMemory_Capacity_def)
  ultimately show ?thesis using a(1) b(1,3) by (auto simp: Size_def)
qed

theorem appends_size_and_capacity_witness:
  "list_all (\<lambda>y. \<not> copy_throws copying_traits y) ([1, 2] @ [3]) \<and>
   relocates copying_traits [1, 2] \<and>
   served copying_traits (max 1 (2 * length [1, 2 :: int])) \<and>
   (\<exists>v h v' h'.
      PushBack_all copying_traits [1, 2] (Vector_default, []) = Done (v, h) \<and>
      Size v = length [1, 2 :: int] \<and> Size v \<le> Capacity v \<and>
      PushBack copying_traits 3 (v, h) = Done (v', h') \<and>
      Size v' = length [1, 2 :: int] + 1 \<and> Size v' \<le> Capacity v' \<and>
      Capacity v' = (if Size v = Capacity v then max 1 (2 * Capacity v) else Capacity v))"
proof -
  have c: "list_all (\<lambda>y. \<not> copy_throws copying_traits y) ([1, 2] @ [3])"
    by (simp add: copying_traits_def)
  have t: "relocates copying_traits [1, 2]"
    by (simp add: relocates_def relocation_throws_def copying_traits_def)
  have s: "served copying_traits (max 1 (2 * length [1, 2 :: int]))"
    by (simp add: served_def fits_size_t_def copying_traits_def SIZE_MAX_def)
  from appends_size_and_capacity [OF c t s, of "[]"] c t s
  show ?thesis by blast
qed

section \<open>Shrinking keeps the buffer\<close>

text \<open>
  C9. \<^verbatim>\<open>Resize\<close> to a smaller size, \<^verbatim>\<open>PopBack\<close> and \<^verbatim>\<open>Erase\<close> never touch the buffer:
  whenever one of them returns (for \<^verbatim>\<open>Erase\<close> also when a move-assignment throws), the
  vector has the same buffer pointer and the same capacity as before, and the free store
  has the same shape, so no block was released, allocated or resized. On a vector that
  represents \<open>xs\<close> the three do return: \<^verbatim>\<open>Resize(k)\<close> for \<open>0 < k < length xs\<close>, \<^verbatim>\<open>PopBack\<close> for
  a non-empty \<open>xs\<close>, and \<^verbatim>\<open>Erase\<close> at an index below the size when no move throws.
\<close>

theorem shrinking_keeps_capacity:
  "(new_size < size' v \<and> Resize T new_size (v, h) = Done (v1, h1) \<longrightarrow>
      Capacity v1 = Capacity v \<and> data' v1 = data' v \<and> shape h1 = shape h) \<and>
   (PopBack (v, h) = Done (v2, h2) \<longrightarrow>
      Capacity v2 = Capacity v \<and> data' v2 = data' v \<and> shape h2 = shape h) \<and>
   (Erase T pos (v, h) = Done (p, v3, h3) \<or> Erase T pos (v, h) = Thrown (v3, h3) \<longrightarrow>
      Capacity v3 = Capacity v \<and> data' v3 = data' v \<and> shape h3 = shape h) \<and>
   (represents h v xs \<longrightarrow>
      (0 < k \<and> k < length xs \<longrightarrow> (\<exists>v' h'. Resize T k (v, h) = Done (v', h'))) \<and>
      (xs \<noteq> [] \<longrightarrow> (\<exists>v' h'. PopBack (v, h) = Done (v', h'))) \<and>
      (i < length xs \<and> list_all (\<lambda>x. \<not> move_throws T x) xs \<longrightarrow>
         (\<exists>p' v' h'. Erase T (ptr_add (Vector_begin v) (int i)) (v, h) = Done (p', v', h'))))"
proof (intro conjI impI)
  assume "new_size < size' v \<and> Resize T new_size (v, h) = Done (v1, h1)"
  then have "data' v1 = data' v \<and> shape h1 = shape h"
    using Resize_shrink_frame[of new_size v T h v1 h1] by simp
  then show "Capacity v1 = Capacity v" "data' v1 = data' v" "shape h1 = shape h"
    by (simp_all add: Capacity_def)
next
  assume "PopBack (v, h) = Done (v2, h2)"
  then have "data' v2 = data' v \<and> shape h2 = shape h" by (rule PopBack_frame)
  then show "Capacity v2 = Capacity v" "data' v2 = data' v" "shape h2 = shape h"
    by (simp_all add: Capacity_def)
next
  assume "Erase T pos (v, h) = Done (p, v3, h3) \<or> Erase T pos (v, h) = Thrown (v3, h3)"
  then have "data' v3 = data' v \<and> shape h3 = shape h" by (rule Erase_frame)
  then show "Capacity v3 = Capacity v" "data' v3 = data' v" "shape h3 = shape h"
    by (simp_all add: Capacity_def)
next
  assume "represents h v xs" "0 < k \<and> k < length xs"
  then show "\<exists>v' h'. Resize T k (v, h) = Done (v', h')"
    using Resize_shrink_returns[of h v xs k T] by simp
next
  assume "represents h v xs" "xs \<noteq> []"
  then show "\<exists>v' h'. PopBack (v, h) = Done (v', h')"
    using PopBack_removes[of h v xs] by blast
next
  assume "represents h v xs" "i < length xs \<and> list_all (\<lambda>x. \<not> move_throws T x) xs"
  then show "\<exists>p' v' h'. Erase T (ptr_add (Vector_begin v) (int i)) (v, h) = Done (p', v', h')"
    using Erase_removes[of h v xs i T] by blast
qed

theorem shrinking_keeps_capacity_witness:
  "2 < size' vec123 \<and>
   Resize noexcept_traits 2 (vec123, heap123) =
     Done (vec123\<lparr>size' := 2\<rparr>, [Some [Live 1, Uninit, Live 3], Some [Live 7]]) \<and>
   PopBack (vec123, heap123) =
     Done (vec123\<lparr>size' := 2\<rparr>, [Some [Live 1, Live 2, Uninit], Some [Live 7]]) \<and>
   Erase noexcept_traits (Ptr 0 1) (vec123, heap123) =
     Done (Ptr 0 1, vec123\<lparr>size' := 2\<rparr>, [Some [Live 1, Live 3, Uninit], Some [Live 7]]) \<and>
   Capacity (vec123\<lparr>size' := 2\<rparr>) = Capacity vec123 \<and>
   shape [Some [Live 1, Uninit, Live 3], Some [Live (7 :: int)]] = shape heap123 \<and>
   shape [Some [Live 1, Live 2, Uninit], Some [Live (7 :: int)]] = shape heap123 \<and>
   shape [Some [Live 1, Live 3, Uninit], Some [Live (7 :: int)]] = shape heap123 \<and>
   represents heap123 vec123 [1, 2, 3] \<and>
   list_all (\<lambda>x. \<not> move_throws noexcept_traits x) [1, 2, 3] \<and>
   (\<exists>v' h'. Resize noexcept_traits 2 (vec123, heap123) = Done (v', h')) \<and>
   (\<exists>v' h'. PopBack (vec123, heap123) = Done (v', h')) \<and>
   (\<exists>p' v' h'. Erase noexcept_traits (ptr_add (Vector_begin vec123) (int 1)) (vec123, heap123) =
      Done (p', v', h'))"
proof -
  have s: "2 < size' vec123" by (simp add: vec123_def)
  have e1: "Resize noexcept_traits 2 (vec123, heap123) =
     Done (vec123\<lparr>size' := 2\<rparr>, [Some [Live 1, Uninit, Live 3], Some [Live 7]])"
    by (simp add: Resize.simps vec123_def heap123_def GetAddress_def ptr_add.simps(2)
        destroy_at_def object_at_def block_at_def numeral_2_eq_2 numeral_3_eq_3)
  have e2: "PopBack (vec123, heap123) =
     Done (vec123\<lparr>size' := 2\<rparr>, [Some [Live 1, Live 2, Uninit], Some [Live 7]])"
    by (simp add: PopBack.simps vec123_def heap123_def Vector_end_def RawMemory_plus_def
        ptr_add.simps(2) destroy_at_def object_at_def block_at_def numeral_2_eq_2
        numeral_3_eq_3)
  have e3: "Erase noexcept_traits (Ptr 0 1) (vec123, heap123) =
     Done (Ptr 0 1, vec123\<lparr>size' := 2\<rparr>, [Some [Live 1, Live 3, Uninit], Some [Live 7]])"
    by (simp add: Erase.simps vec123_def heap123_def Vector_begin_def GetAddress_def
        Vector_end_def RawMemory_plus_def std_move_def move_assign_def noexcept_traits_def
        ptr_add.simps(2) destroy_at_def object_at_def block_at_def Let_def
        numeral_2_eq_2 numeral_3_eq_3)
  have r: "represents heap123 vec123 [1, 2, 3]"
    by (simp add: represents_def vec123_def heap123_def block_at_def)
  have t: "list_all (\<lambda>x. \<not> move_throws noexcept_traits x) [1, 2, 3]"
    by (simp add: noexcept_traits_def)
  have l: "(0 :: nat) < 2 \<and> 2 < length [1, 2, 3 :: int]" "[1, 2, 3 :: int] \<noteq> []"
    "1 < length [1, 2, 3 :: int]"
    by simp_all
  note inst = shrinking_keeps_capacity [where new_size = 2 and v = vec123 and T = noexcept_traits
      and h = heap123 and ?v1.0 = "vec123\<lparr>size' := 2\<rparr>"
      and ?h1.0 = "[Some [Live 1, Uninit, Live 3], Some [Live 7]]"
      and ?v2.0 = "vec123\<lparr>size' := 2\<rparr>"
      and ?h2.0 = "[Some [Live 1, Live 2, Uninit], Some [Live 7]]"
      and pos = "Ptr 0 1" and p = "Ptr 0 1" and ?v3.0 = "vec123\<lparr>size' := 2\<rparr>"
      and ?h3.0 = "[Some [Live 1, Live 3, Uninit], Some [Live 7]]"
      and xs = "[1, 2, 3]" and k = 2 and i = 1]
  from inst s e1 e2 e3 r t l show ?thesis by blast
qed

section \<open>Insertion followed by erasure\<close>

text \<open>
  C6. Let a vector represent \<open>xs\<close>, let \<open>i\<close> be a valid position (\<open>i \<le> length xs\<close>, the end
  included) and \<open>x\<close> a value, where no copy or move of \<open>x\<close> or of an element throws and
  \<^verbatim>\<open>operator new\<close> serves a buffer of twice the size, which a full vector asks for.
  \<^verbatim>\<open>Insert\<close> at \<^verbatim>\<open>begin() + i\<close> returns the position \<^verbatim>\<open>begin() + i\<close> of the new vector, which
  represents \<open>xs\<close> with \<open>x\<close> inserted before index \<open>i\<close> and has one element more; \<^verbatim>\<open>Erase\<close> at
  that position then returns a vector that represents \<open>xs\<close> again, that is, all other
  elements in their original order, with the size it had before the insertion.
\<close>

theorem insert_then_erase_restores:
  assumes "represents h v xs" and "i \<le> length xs" and "nothrow T (x # xs)"
    and "served T (max 1 (2 * length xs))"
  shows "\<exists>p v1 h1 q v2 h2.
           Insert T (ptr_add (Vector_begin v) (int i)) x (v, h) = Done (p, v1, h1) \<and>
           p = ptr_add (Vector_begin v1) (int i) \<and>
           represents h1 v1 (take i xs @ x # drop i xs) \<and> Size v1 = Size v + 1 \<and>
           Erase T p (v1, h1) = Done (q, v2, h2) \<and>
           represents h2 v2 xs \<and> Size v2 = Size v"
proof -
  let ?ys = "take i xs @ x # drop i xs"
  from Insert_inserts[OF assms] obtain v1 h1 where
    ins: "Insert T (ptr_add (Vector_begin v) (int i)) x (v, h) =
            Done (ptr_add (Vector_begin v1) (int i), v1, h1)"
    and r1: "represents h1 v1 ?ys"
    by blast
  have l: "i < length ?ys" using assms(2) by simp
  have "list_all (\<lambda>y. \<not> move_throws T y) (x # xs)" using assms(3) by (rule nothrow_moves)
  then have mv: "list_all (\<lambda>y. \<not> move_throws T y) ?ys"
    using set_take_subset[of i xs] set_drop_subset[of i xs] by (auto simp: list_all_iff)
  from Erase_removes[OF r1 l mv] obtain v2 h2 where
    er: "Erase T (ptr_add (Vector_begin v1) (int i)) (v1, h1) =
           Done (ptr_add (Vector_begin v2) (int i), v2, h2)"
    and r2: "represents h2 v2 (take i ?ys @ drop (Suc i) ?ys)"
    by blast
  have ti: "take i ?ys = take i xs" and dr: "drop (Suc i) ?ys = drop i xs"
    using assms(2) by simp_all
  have r2': "represents h2 v2 xs" using r2 unfolding ti dr by simp
  have z0: "size' v = length xs" using assms(1) by (simp add: represents_def)
  have z1: "size' v1 = length ?ys" using r1 by (simp only: represents_def)
  have z2: "size' v2 = length xs" using r2' by (simp add: represents_def)
  have s1: "Size v1 = Size v + 1" using z0 z1 assms(2) by (simp add: Size_def)
  have s2: "Size v2 = Size v" using z0 z2 by (simp add: Size_def)
  show ?thesis
    by (intro exI conjI) (rule ins refl r1 s1 er r2' s2)+

qed

theorem insert_then_erase_restores_witness:
  "represents heap123 vec123 [1, 2, 3] \<and> (1 :: nat) \<le> length [1, 2, 3 :: int] \<and>
   nothrow noexcept_traits [99, 1, 2, 3] \<and>
   served noexcept_traits (max 1 (2 * length [1, 2, 3 :: int])) \<and>
   (\<exists>p v1 h1 q v2 h2.
      Insert noexcept_traits (ptr_add (Vector_begin vec123) (int 1)) 99 (vec123, heap123) =
        Done (p, v1, h1) \<and>
      p = ptr_add (Vector_begin v1) (int 1) \<and>
      represents h1 v1 (take 1 [1, 2, 3] @ 99 # drop 1 [1, 2, 3]) \<and>
      Size v1 = Size vec123 + 1 \<and>
      Erase noexcept_traits p (v1, h1) = Done (q, v2, h2) \<and>
      represents h2 v2 [1, 2, 3] \<and> Size v2 = Size vec123)"
proof -
  have r: "represents heap123 vec123 [1, 2, 3]"
    by (simp add: represents_def vec123_def heap123_def block_at_def)
  have l: "(1 :: nat) \<le> length [1, 2, 3 :: int]" by simp
  have t: "nothrow noexcept_traits [99, 1, 2, 3]" by (simp add: nothrow_def noexcept_traits_def)
  have s: "served noexcept_traits (max 1 (2 * length [1, 2, 3 :: int]))"
    by (simp add: served_def fits_size_t_def noexcept_traits_def SIZE_MAX_def)
  from insert_then_erase_restores [OF r l t s] r l t s show ?thesis by blast
qed

end
